theory Spec2Isabelle
  imports Complex_Main "HOL-Library.AList" "HOL-Library.Sublist"
begin

section \<open>Data model\<close>

text \<open>
  The S-learner of \<^verbatim>\<open>fklearn/causal/cate_learning/meta_learners.py\<close> works on pandas
  data frames. A frame is modelled column-wise, as pandas stores it: a row count (the
  length of the index) and an ordered association list from column names to the column's
  cells. A cell is a number or a string. Numbers are idealised as reals: NaN and rounding
  are outside the model.
\<close>

datatype cell = Num real | Str string

datatype error =
    MissingControlError
  | MissingTreatmentError
  | MultipleTreatmentsError
  | KeyError
  | ValueError
  | TypeError
  | CollaboratorError string

record frame =
  nrows :: nat
  cols :: "(string \<times> cell list) list"

text \<open>Column names are unique and every column is as long as the index.\<close>

definition wf_frame :: "frame \<Rightarrow> bool" where
  "wf_frame f \<longleftrightarrow>
     distinct (map fst (cols f)) \<and> list_all (\<lambda>p. length (snd p) = nrows f) (cols f)"

text \<open>The rows of a frame, each an association list from column name to value.\<close>

definition rows_of :: "frame \<Rightarrow> (string \<times> cell) list list" where
  "rows_of f = map (\<lambda>i. map (\<lambda>p. (fst p, snd p ! i)) (cols f)) [0..<nrows f]"

subsection \<open>The pandas and numpy operations the module uses\<close>

text \<open>\<^verbatim>\<open>df[name]\<close>: KeyError when the column is absent.\<close>

definition get_col :: "frame \<Rightarrow> string \<Rightarrow> error + cell list" where
  "get_col f name = (case map_of (cols f) name of None \<Rightarrow> Inl KeyError | Some vs \<Rightarrow> Inr vs)"

text \<open>
  \<^verbatim>\<open>df[name] = values\<close>: an existing column is overwritten in place, a new one is
  appended; ValueError when the length differs from the index.
\<close>

definition assign_col :: "frame \<Rightarrow> string \<Rightarrow> cell list \<Rightarrow> error + frame" where
  "assign_col f name vs =
     (if length vs = nrows f then Inr (f\<lparr>cols := AList.update name vs (cols f)\<rparr>)
      else Inl ValueError)"

text \<open>\<^verbatim>\<open>df.drop(columns=[name])\<close>: KeyError when the column is absent.\<close>

definition drop_col :: "frame \<Rightarrow> string \<Rightarrow> error + frame" where
  "drop_col f name =
     (if name \<in> set (map fst (cols f)) then Inr (f\<lparr>cols := AList.delete name (cols f)\<rparr>)
      else Inl KeyError)"

text \<open>\<^verbatim>\<open>Series.unique()\<close>: the distinct values in order of first appearance.\<close>

fun uniq_acc :: "'a list \<Rightarrow> 'a list \<Rightarrow> 'a list" where
  "uniq_acc seen [] = []"
| "uniq_acc seen (x # xs) =
     (if x \<in> set seen then uniq_acc seen xs else x # uniq_acc (x # seen) xs)"

definition unique_vals :: "'a list \<Rightarrow> 'a list" where
  "unique_vals xs = uniq_acc [] xs"

text \<open>\<^verbatim>\<open>df.loc[mask, :]\<close>: the rows where the boolean mask holds, in their order.\<close>

definition select_mask :: "bool list \<Rightarrow> 'a list \<Rightarrow> 'a list" where
  "select_mask msk vs = map fst (filter snd (zip vs msk))"

definition loc_rows :: "frame \<Rightarrow> bool list \<Rightarrow> frame" where
  "loc_rows f msk =
     \<lparr>nrows = length (filter id msk),
      cols = map (\<lambda>p. (fst p, select_mask msk (snd p))) (cols f)\<rparr>"

text \<open>Element-wise subtraction of two columns; a string operand is a TypeError.\<close>

fun sub_cells :: "cell list \<Rightarrow> cell list \<Rightarrow> error + cell list" where
  "sub_cells (Num a # as) (Num b # bs) =
     (case sub_cells as bs of Inl e \<Rightarrow> Inl e | Inr ds \<Rightarrow> Inr (Num (a - b) # ds))"
| "sub_cells [] [] = Inr []"
| "sub_cells (Str a # as) bs = Inl TypeError"
| "sub_cells as (Str b # bs) = Inl TypeError"
| "sub_cells as bs = Inl ValueError"

text \<open>The numeric content of a column.\<close>

fun nums :: "cell list \<Rightarrow> error + real list" where
  "nums [] = Inr []"
| "nums (Num a # cs) = (case nums cs of Inl e \<Rightarrow> Inl e | Inr as \<Rightarrow> Inr (a # as))"
| "nums (Str a # cs) = Inl TypeError"

text \<open>\<^verbatim>\<open>df[names]\<close> for a list of names, read as numeric columns.\<close>

fun select_num_cols :: "frame \<Rightarrow> string list \<Rightarrow> error + real list list" where
  "select_num_cols f [] = Inr []"
| "select_num_cols f (n # ns) =
     (case get_col f n of Inl e \<Rightarrow> Inl e
      | Inr vs \<Rightarrow>
        (case nums vs of Inl e \<Rightarrow> Inl e
         | Inr as \<Rightarrow>
           (case select_num_cols f ns of Inl e \<Rightarrow> Inl e | Inr rest \<Rightarrow> Inr (as # rest))))"

text \<open>Row \<open>i\<close> of a list of columns.\<close>

definition row_at :: "real list list \<Rightarrow> nat \<Rightarrow> real list" where
  "row_at cs i = map (\<lambda>c. c ! i) cs"

text \<open>
  numpy's argmax over one row: a scan that keeps the best position so far and moves only
  on a strictly greater value, so the first maximum wins.
\<close>

fun argmax_scan :: "nat \<Rightarrow> real \<Rightarrow> nat \<Rightarrow> real list \<Rightarrow> nat" where
  "argmax_scan best bv i [] = best"
| "argmax_scan best bv i (x # xs) =
     (if bv < x then argmax_scan i x (Suc i) xs else argmax_scan best bv (Suc i) xs)"

definition argmax :: "real list \<Rightarrow> nat" where
  "argmax xs = (case xs of [] \<Rightarrow> 0 | x # rest \<Rightarrow> argmax_scan 0 x 1 rest)"

definition list_max :: "real list \<Rightarrow> real" where
  "list_max xs = (case xs of [] \<Rightarrow> 0 | x # rest \<Rightarrow> fold max rest x)"

text \<open>\<^verbatim>\<open>df[names].max(axis=1)\<close> and \<^verbatim>\<open>df[names].idxmax(axis=1)\<close> over \<open>n\<close> rows.\<close>

definition max_axis1 :: "nat \<Rightarrow> real list list \<Rightarrow> real list" where
  "max_axis1 n cs = map (\<lambda>i. list_max (row_at cs i)) [0..<n]"

definition idxmax_axis1 :: "nat \<Rightarrow> string list \<Rightarrow> real list list \<Rightarrow> string list" where
  "idxmax_axis1 n names cs = map (\<lambda>i. names ! argmax (row_at cs i)) [0..<n]"

text \<open>
  \<^verbatim>\<open>s.replace(old, "")\<close> for a non-empty \<open>old\<close>: every occurrence, found from the
  left and not overlapping, is removed.
\<close>

function str_remove :: "string \<Rightarrow> string \<Rightarrow> string" where
  "str_remove old [] = []"
| "str_remove old (c # cs) =
     (if old \<noteq> [] \<and> prefix old (c # cs)
      then str_remove old (drop (length old) (c # cs))
      else c # str_remove old cs)"
  by pat_completeness auto
termination
  by (relation "measure (\<lambda>p. length (snd p))") (auto simp: neq_Nil_conv)


subsection \<open>The store\<close>

text \<open>
  Frames are mutable objects passed by reference. The store is the list of the frames
  allocated so far and a reference is a position in it; \<^verbatim>\<open>df.copy()\<close> and every
  operation that builds a new frame allocate at the end.
\<close>

type_synonym ref = nat
type_synonym store = "frame list"

definition new_frame :: "store \<Rightarrow> frame \<Rightarrow> store \<times> ref" where
  "new_frame s f = (s @ [f], length s)"

definition copy_frame :: "store \<Rightarrow> ref \<Rightarrow> store \<times> ref" where
  "copy_frame s r = new_frame s (s ! r)"

text \<open>
  The collaborators: a fitted predictor maps a frame to a scored frame, a learner maps a
  frame to a predictor, its own scores and a log. Both may fail, and neither changes the
  frame it is given.
\<close>

type_synonym predictor = "frame \<Rightarrow> error + frame"
type_synonym ('p, 'l) learner = "frame \<Rightarrow> error + ('p \<times> frame \<times> 'l)"

section \<open>The module\<close>

definition TREATMENT_FEATURE :: string where
  "TREATMENT_FEATURE = ''is_treatment''"

definition append_treatment_feature :: "string list \<Rightarrow> string \<Rightarrow> string list" where
  "append_treatment_feature features treatment_feature = features @ [treatment_feature]"

definition get_unique_treatments :: "store \<Rightarrow> ref \<Rightarrow> string \<Rightarrow> string \<Rightarrow> error + cell list" where
  "get_unique_treatments s df treatment_col control_name =
     (case get_col (s ! df) treatment_col of
        Inl e \<Rightarrow> Inl e
      | Inr vs \<Rightarrow>
          if Str control_name \<notin> set (unique_vals vs) then Inl MissingControlError
          else Inr (filter (\<lambda>c. c \<noteq> Str control_name) (unique_vals vs)))"

definition filter_by_treatment ::
  "store \<Rightarrow> ref \<Rightarrow> string \<Rightarrow> string \<Rightarrow> string \<Rightarrow> store \<times> (error + ref)" where
  "filter_by_treatment s df treatment_col treatment_name control_name =
     (case get_col (s ! df) treatment_col of
        Inl e \<Rightarrow> (s, Inl e)
      | Inr vs \<Rightarrow>
          let treatment_control_values = unique_vals vs in
          if Str control_name \<notin> set treatment_control_values then (s, Inl MissingControlError)
          else if Str treatment_name \<notin> set treatment_control_values
          then (s, Inl MissingTreatmentError)
          else
            let msk = map (\<lambda>v. v = Str treatment_name \<or> v = Str control_name) vs;
                (s', treatment_control_df) = new_frame s (loc_rows (s ! df) msk)
            in (s', Inr treatment_control_df))"

definition create_treatment_flag ::
  "store \<Rightarrow> ref \<Rightarrow> string \<Rightarrow> string \<Rightarrow> string \<Rightarrow> store \<times> (error + ref)" where
  "create_treatment_flag s df0 treatment_col treatment_name control_name =
     (let (s1, df) = copy_frame s df0 in
      case get_col (s1 ! df) treatment_col of
        Inl e \<Rightarrow> (s1, Inl e)
      | Inr vs \<Rightarrow>
          let treatment_control_values = unique_vals vs in
          case get_unique_treatments s1 df treatment_col control_name of
            Inl e \<Rightarrow> (s1, Inl e)
          | Inr ts \<Rightarrow>
              if length ts > 1 then (s1, Inl MultipleTreatmentsError)
              else if Str control_name \<notin> set treatment_control_values
              then (s1, Inl MissingControlError)
              else if Str treatment_name \<notin> set treatment_control_values
              then (s1, Inl MissingTreatmentError)
              else
                let treatment_flag =
                      map (\<lambda>v. if v = Str treatment_name then Num 1 else Num 0) vs
                in case assign_col (s1 ! df) TREATMENT_FEATURE treatment_flag of
                     Inl e \<Rightarrow> (s1, Inl e)
                   | Inr f \<Rightarrow> (s1[df := f], Inr df))"

text \<open>
  The body of the loop of \<^verbatim>\<open>_fit_by_treatment\<close> for one treatment: filter, flag,
  fit. The loop stores the predictor and the log under the treatment in two dicts, which
  keep insertion order.
\<close>

definition fit_one ::
  "store \<Rightarrow> ref \<Rightarrow> ('p, 'l) learner \<Rightarrow> string \<Rightarrow> string \<Rightarrow> string \<Rightarrow> store \<times> (error + 'p \<times> 'l)" where
  "fit_one s df learner treatment_col control_name treatment =
     (case filter_by_treatment s df treatment_col treatment control_name of
        (s1, Inl e) \<Rightarrow> (s1, Inl e)
      | (s1, Inr tc) \<Rightarrow>
          (case create_treatment_flag s1 tc treatment_col treatment control_name of
             (s2, Inl e) \<Rightarrow> (s2, Inl e)
           | (s2, Inr tc2) \<Rightarrow>
               (case learner (s2 ! tc2) of
                  Inl e \<Rightarrow> (s2, Inl e)
                | Inr (learner_fcn, _, learner_log) \<Rightarrow> (s2, Inr (learner_fcn, learner_log)))))"

fun fit_loop ::
  "store \<Rightarrow> ref \<Rightarrow> ('p, 'l) learner \<Rightarrow> string \<Rightarrow> string \<Rightarrow>
   (string \<times> 'p) list \<Rightarrow> (string \<times> 'l) list \<Rightarrow> string list \<Rightarrow>
   store \<times> (error + (string \<times> 'p) list \<times> (string \<times> 'l) list)" where
  "fit_loop s df learner treatment_col control_name fitted_learners learners_logs [] =
     (s, Inr (fitted_learners, learners_logs))"
| "fit_loop s df learner treatment_col control_name fitted_learners learners_logs (t # ts) =
     (case fit_one s df learner treatment_col control_name t of
        (s', Inl e) \<Rightarrow> (s', Inl e)
      | (s', Inr (learner_fcn, learner_log)) \<Rightarrow>
          fit_loop s' df learner treatment_col control_name
            (AList.update t learner_fcn fitted_learners)
            (AList.update t learner_log learners_logs) ts)"

definition fit_by_treatment ::
  "store \<Rightarrow> ref \<Rightarrow> ('p, 'l) learner \<Rightarrow> string \<Rightarrow> string \<Rightarrow> string list \<Rightarrow>
   store \<times> (error + (string \<times> 'p) list \<times> (string \<times> 'l) list)" where
  "fit_by_treatment s df learner treatment_col control_name treatments =
     fit_loop s df learner treatment_col control_name [] [] treatments"

text \<open>\<^verbatim>\<open>np.ones(n) if is_treatment else np.zeros(n)\<close>\<close>

definition flag_const :: "nat \<Rightarrow> bool \<Rightarrow> cell list" where
  "flag_const n is_treatment = replicate n (Num (if is_treatment then 1 else 0))"

definition predict_by_treatment_flag ::
  "store \<Rightarrow> ref \<Rightarrow> predictor \<Rightarrow> bool \<Rightarrow> string \<Rightarrow> store \<times> (error + cell list)" where
  "predict_by_treatment_flag s df learner_fcn is_treatment prediction_column =
     (case assign_col (s ! df) TREATMENT_FEATURE (flag_const (nrows (s ! df)) is_treatment) of
        Inl e \<Rightarrow> (s, Inl e)
      | Inr f1 \<Rightarrow>
          let s1 = s[df := f1] in
          case learner_fcn (s1 ! df) of
            Inl e \<Rightarrow> (s1, Inl e)
          | Inr prediction_df \<Rightarrow>
              (case drop_col (s1 ! df) TREATMENT_FEATURE of
                 Inl e \<Rightarrow> (s1, Inl e)
               | Inr f2 \<Rightarrow>
                   let s2 = s1[df := f2] in
                   case get_col prediction_df prediction_column of
                     Inl e \<Rightarrow> (s2, Inl e)
                   | Inr vs \<Rightarrow> (s2, Inr vs)))"

definition on_treatment_col :: "string \<Rightarrow> string \<Rightarrow> string" where
  "on_treatment_col treatment prediction_column =
     ''treatment_'' @ treatment @ ''__'' @ prediction_column @ ''_on_treatment''"

definition on_control_col :: "string \<Rightarrow> string \<Rightarrow> string" where
  "on_control_col treatment prediction_column =
     ''treatment_'' @ treatment @ ''__'' @ prediction_column @ ''_on_control''"

definition uplift_col :: "string \<Rightarrow> string" where
  "uplift_col treatment = ''treatment_'' @ treatment @ ''__uplift''"

text \<open>
  The body of the loop of \<^verbatim>\<open>_simulate_treatment_effect\<close> for one treatment: score
  as treated, score as control, take the difference. \<open>learners\<close> is the dict of fitted
  predictors. The result is the name of the uplift column, which the loop appends to
  \<open>uplift_cols\<close>.
\<close>

definition score_treatment ::
  "store \<Rightarrow> ref \<Rightarrow> (string \<times> predictor) list \<Rightarrow> string \<Rightarrow> string \<Rightarrow>
   store \<times> (error + string)" where
  "score_treatment s scored_df learners prediction_column t =
     (case map_of learners t of
        None \<Rightarrow> (s, Inl KeyError)
      | Some learner_fcn \<Rightarrow>
     (case predict_by_treatment_flag s scored_df learner_fcn True prediction_column of
        (s1, Inl e) \<Rightarrow> (s1, Inl e)
      | (s1, Inr on_t) \<Rightarrow>
     (case assign_col (s1 ! scored_df) (on_treatment_col t prediction_column) on_t of
        Inl e \<Rightarrow> (s1, Inl e)
      | Inr f2 \<Rightarrow>
     (case predict_by_treatment_flag (s1[scored_df := f2]) scored_df learner_fcn False
             prediction_column of
        (s3, Inl e) \<Rightarrow> (s3, Inl e)
      | (s3, Inr on_c) \<Rightarrow>
     (case assign_col (s3 ! scored_df) (on_control_col t prediction_column) on_c of
        Inl e \<Rightarrow> (s3, Inl e)
      | Inr f4 \<Rightarrow>
     (case get_col f4 (on_treatment_col t prediction_column) of
        Inl e \<Rightarrow> (s3[scored_df := f4], Inl e)
      | Inr a \<Rightarrow>
     (case get_col f4 (on_control_col t prediction_column) of
        Inl e \<Rightarrow> (s3[scored_df := f4], Inl e)
      | Inr b \<Rightarrow>
     (case sub_cells a b of
        Inl e \<Rightarrow> (s3[scored_df := f4], Inl e)
      | Inr d \<Rightarrow>
     (case assign_col f4 (uplift_col t) d of
        Inl e \<Rightarrow> (s3[scored_df := f4], Inl e)
      | Inr f5 \<Rightarrow> (s3[scored_df := f5], Inr (uplift_col t)))))))))))"

fun simulate_loop ::
  "store \<Rightarrow> ref \<Rightarrow> (string \<times> predictor) list \<Rightarrow> string \<Rightarrow> string list \<Rightarrow> string list \<Rightarrow>
   store \<times> (error + string list)" where
  "simulate_loop s scored_df learners prediction_column uplift_cols [] = (s, Inr uplift_cols)"
| "simulate_loop s scored_df learners prediction_column uplift_cols (t # ts) =
     (case score_treatment s scored_df learners prediction_column t of
        (s', Inl e) \<Rightarrow> (s', Inl e)
      | (s', Inr u) \<Rightarrow>
          simulate_loop s' scored_df learners prediction_column (uplift_cols @ [u]) ts)"

text \<open>
  The whole of \<^verbatim>\<open>_simulate_treatment_effect\<close>: the copy, the loop, the row-wise
  maximum, the suggested treatment, and the removal of \<^verbatim>\<open>__uplift\<close> from it.
  \<^verbatim>\<open>idxmax\<close> over no columns at all raises ValueError (the maximum over no columns,
  NaN in pandas, is then never used).
\<close>

definition simulate_treatment_effect ::
  "store \<Rightarrow> ref \<Rightarrow> string list \<Rightarrow> string \<Rightarrow> (string \<times> predictor) list \<Rightarrow> string \<Rightarrow>
   store \<times> (error + ref)" where
  "simulate_treatment_effect s df treatments control_name learners prediction_column =
     (let (s0, scored_df) = copy_frame s df in
      case simulate_loop s0 scored_df learners prediction_column [] treatments of
        (s1, Inl e) \<Rightarrow> (s1, Inl e)
      | (s1, Inr uplift_cols) \<Rightarrow>
     (case select_num_cols (s1 ! scored_df) uplift_cols of
        Inl e \<Rightarrow> (s1, Inl e)
      | Inr ups \<Rightarrow>
     (case assign_col (s1 ! scored_df) ''uplift''
             (map Num (max_axis1 (nrows (s1 ! scored_df)) ups)) of
        Inl e \<Rightarrow> (s1, Inl e)
      | Inr f2 \<Rightarrow>
     (case get_col f2 ''uplift'' of
        Inl e \<Rightarrow> (s1[scored_df := f2], Inl e)
      | Inr ucells \<Rightarrow>
     (case nums ucells of
        Inl e \<Rightarrow> (s1[scored_df := f2], Inl e)
      | Inr uplift \<Rightarrow>
     (case select_num_cols f2 uplift_cols of
        Inl e \<Rightarrow> (s1[scored_df := f2], Inl e)
      | Inr ups2 \<Rightarrow>
          if uplift_cols = [] then (s1[scored_df := f2], Inl ValueError)
          else
            let best = idxmax_axis1 (nrows f2) uplift_cols ups2;
                suggested = map (\<lambda>p. if fst p \<le> 0 then control_name else snd p)
                              (zip uplift best)
            in
     (case assign_col f2 ''suggested_treatment'' (map Str suggested) of
        Inl e \<Rightarrow> (s1[scored_df := f2], Inl e)
      | Inr f3 \<Rightarrow>
     (case assign_col f3 ''suggested_treatment''
             (map (\<lambda>x. Str (str_remove ''__uplift'' x)) suggested) of
        Inl e \<Rightarrow> (s1[scored_df := f3], Inl e)
      | Inr f4 \<Rightarrow> (s1[scored_df := f4], Inr scored_df)))))))))"

text \<open>
  The prediction closure \<^verbatim>\<open>p\<close> returned by \<^verbatim>\<open>causal_s_classification_learner\<close>;
  the variables it captures are parameters here.
\<close>

definition p ::
  "string list \<Rightarrow> (string \<times> predictor) list \<Rightarrow> string \<Rightarrow> string \<Rightarrow> store \<Rightarrow> ref \<Rightarrow>
   store \<times> (error + ref)" where
  "p unique_treatments fitted_learners control_name prediction_column s new_df =
     simulate_treatment_effect s new_df unique_treatments control_name fitted_learners
       prediction_column"

section \<open>Example data\<close>

text \<open>Small frames on which the theorems below are instantiated.\<close>

definition ex_ab :: frame where
  "ex_ab = \<lparr>nrows = 2,
     cols = [(''feature'', [Num 1, Num 4]), (''treatment'', [Str ''A'', Str ''B''])]\<rparr>"

definition ex_abc :: frame where
  "ex_abc = \<lparr>nrows = 3,
     cols = [(''feature'', [Num 1, Num 4, Num 3]),
             (''treatment'', [Str ''A'', Str ''B'', Str ''control''])]\<rparr>"

definition ex_bcc :: frame where
  "ex_bcc = \<lparr>nrows = 3,
     cols = [(''feature'', [Num 1, Num 4, Num 3]),
             (''treatment'', [Str ''B'', Str ''C'', Str ''control''])]\<rparr>"

definition ex_cc :: frame where
  "ex_cc = \<lparr>nrows = 2,
     cols = [(''feature'', [Num 1, Num 4]),
             (''treatment'', [Str ''control'', Str ''control''])]\<rparr>"

text \<open>
  The frame as \<^verbatim>\<open>_predict_by_treatment_flag\<close> hands it to the predictor, with the flag
  column forced to a constant, and the frame after the flag column is dropped.
\<close>

definition with_flag :: "frame \<Rightarrow> bool \<Rightarrow> frame" where
  "with_flag f is_treatment =
     f\<lparr>cols := AList.update TREATMENT_FEATURE (flag_const (nrows f) is_treatment) (cols f)\<rparr>"

definition without_flag :: "frame \<Rightarrow> frame" where
  "without_flag f = f\<lparr>cols := AList.delete TREATMENT_FEATURE (cols f)\<rparr>"

text \<open>A predictor that raises, and the predictor of the module's tests.\<close>

definition failing_predictor :: predictor where
  "failing_predictor f = Inl (CollaboratorError ''predict failed'')"

definition ones_or_zeros_model :: predictor where
  "ones_or_zeros_model new_df =
     (case get_col new_df TREATMENT_FEATURE of
        Inl e \<Rightarrow> Inl e
      | Inr pred \<Rightarrow> assign_col new_df ''prediction'' pred)"

definition ex_flagged :: frame where
  "ex_flagged = \<lparr>nrows = 2,
     cols = [(''x1'', [Num 1, Num 4]), (''is_treatment'', [Num 0, Num 1])]\<rparr>"

text \<open>The frame of the module's test of flag injection.\<close>

definition ex_group :: frame where
  "ex_group = \<lparr>nrows = 4,
     cols = [(''feature'', [Num 1.3, Num 1.0, Num 1.8, Num (-0.1)]),
             (''group'', [Str ''treatment'', Str ''treatment'', Str ''control'', Str ''control'']),
             (''target'', [Num 1, Num 1, Num 1, Num 0])]\<rparr>"

text \<open>The frame of the module's test of per-treatment fitting, and two learners.\<close>

definition ex_fit :: frame where
  "ex_fit = \<lparr>nrows = 9,
     cols = [(''x1'', [Num 1.3, Num 1.0, Num 1.8, Num (-0.1), Num 0.0, Num 1.0, Num 2.2,
                       Num 0.4, Num (-5.0)]),
             (''x2'', [Num 10, Num 4, Num 15, Num 6, Num 5, Num 12, Num 14, Num 5, Num 12]),
             (''treatment'', [Str ''A'', Str ''B'', Str ''A'', Str ''A'', Str ''B'',
                       Str ''control'', Str ''control'', Str ''B'', Str ''control'']),
             (''target'', [Num 1, Num 1, Num 1, Num 0, Num 0, Num 1, Num 0, Num 0, Num 1])]\<rparr>"

definition counting_learner :: "(predictor, nat) learner" where
  "counting_learner g = Inr (ones_or_zeros_model, g, nrows g)"

definition learner_failing_on_B :: "(predictor, nat) learner" where
  "learner_failing_on_B g =
     (case get_col g ''treatment'' of
        Inl e \<Rightarrow> Inl e
      | Inr vs \<Rightarrow>
          if Str ''B'' \<in> set vs then Inl (CollaboratorError ''fit failed'')
          else Inr (ones_or_zeros_model, g, nrows g))"

text \<open>
  For stating what the scored frame holds: the numeric content of a named column, the
  uplift values of row \<open>i\<close> by treatment in list order, and the value
  \<^verbatim>\<open>np.where\<close> selects for row \<open>i\<close> before \<^verbatim>\<open>__uplift\<close> is removed.
\<close>

definition num_col :: "frame \<Rightarrow> string \<Rightarrow> real list option" where
  "num_col f name =
     (case get_col f name of
        Inl e \<Rightarrow> None
      | Inr vs \<Rightarrow> (case nums vs of Inl e \<Rightarrow> None | Inr xs \<Rightarrow> Some xs))"

definition row_uplifts :: "frame \<Rightarrow> string list \<Rightarrow> nat \<Rightarrow> real list" where
  "row_uplifts f ts i = map (\<lambda>t. the (num_col f (uplift_col t)) ! i) ts"

definition suggestion :: "frame \<Rightarrow> string list \<Rightarrow> string \<Rightarrow> nat \<Rightarrow> string" where
  "suggestion f ts control_name i =
     (if list_max (row_uplifts f ts i) \<le> 0 then control_name
      else uplift_col (ts ! argmax (row_uplifts f ts i)))"

text \<open>
  The data of the module's test of the simulation: a predictor that answers from a table
  according to the flag it is given, the input frame, the two predictors and the scored
  frame the test expects.
\<close>

definition table_predictor :: "real list \<Rightarrow> real list \<Rightarrow> predictor" where
  "table_predictor on_t on_c new_df =
     (case get_col new_df TREATMENT_FEATURE of
        Inl e \<Rightarrow> Inl e
      | Inr flags \<Rightarrow>
          assign_col new_df ''prediction''
            (map Num (if flags = flag_const (nrows new_df) True then on_t else on_c)))"

definition ex_sim :: frame where
  "ex_sim = \<lparr>nrows = 4,
     cols = [(''x1'', [Num 1.3, Num 1.0, Num 1.8, Num (-0.1)]),
             (''x2'', [Num 10, Num 4, Num 15, Num 6]),
             (''treatment'', [Str ''A'', Str ''B'', Str ''A'', Str ''control'']),
             (''target'', [Num 0, Num 0, Num 0, Num 1])]\<rparr>"

definition ex_learners :: "(string \<times> predictor) list" where
  "ex_learners =
     [(''A'', table_predictor [0.3, 0.3, 0.0, 1.0] [0.2, 0.5, 0.3, 0.0]),
      (''B'', table_predictor [0.6, 0.7, 0.0, 1.0] [1.0, 0.5, 1.0, 1.0])]"

definition ex_scored :: frame where
  "ex_scored = \<lparr>nrows = 4,
     cols = [(''x1'', [Num 1.3, Num 1.0, Num 1.8, Num (-0.1)]),
             (''x2'', [Num 10, Num 4, Num 15, Num 6]),
             (''treatment'', [Str ''A'', Str ''B'', Str ''A'', Str ''control'']),
             (''target'', [Num 0, Num 0, Num 0, Num 1]),
             (''treatment_A__prediction_on_treatment'', [Num 0.3, Num 0.3, Num 0.0, Num 1.0]),
             (''treatment_A__prediction_on_control'', [Num 0.2, Num 0.5, Num 0.3, Num 0.0]),
             (''treatment_A__uplift'', [Num 0.1, Num (-0.2), Num (-0.3), Num 1.0]),
             (''treatment_B__prediction_on_treatment'', [Num 0.6, Num 0.7, Num 0.0, Num 1.0]),
             (''treatment_B__prediction_on_control'', [Num 1.0, Num 0.5, Num 1.0, Num 1.0]),
             (''treatment_B__uplift'', [Num (-0.4), Num 0.2, Num (-1.0), Num 0.0]),
             (''uplift'', [Num 0.1, Num 0.2, Num (-0.3), Num 1.0]),
             (''suggested_treatment'',
                [Str ''treatment_A'', Str ''treatment_B'', Str ''control'', Str ''treatment_A''])]\<rparr>"

section \<open>Properties\<close>

subsection \<open>Distinct values\<close>

lemma set_uniq_acc: "set (uniq_acc seen xs) = set xs - set seen"
  by (induction xs arbitrary: seen) auto

lemma distinct_uniq_acc: "distinct (uniq_acc seen xs)"
  by (induction xs arbitrary: seen) (auto simp: set_uniq_acc)

lemma set_unique_vals: "set (unique_vals xs) = set xs"
  by (simp add: unique_vals_def set_uniq_acc)

lemma distinct_unique_vals: "distinct (unique_vals xs)"
  by (simp add: unique_vals_def distinct_uniq_acc)

lemma length_non_control:
  "length (filter (\<lambda>c. c \<noteq> x) (unique_vals vs)) = card (set vs - {x})"
proof -
  have "distinct (filter (\<lambda>c. c \<noteq> x) (unique_vals vs))"
    by (simp add: distinct_unique_vals)
  then have "length (filter (\<lambda>c. c \<noteq> x) (unique_vals vs))
      = card (set (filter (\<lambda>c. c \<noteq> x) (unique_vals vs)))"
    by (rule distinct_card[symmetric])
  also have "set (filter (\<lambda>c. c \<noteq> x) (unique_vals vs)) = set vs - {x}"
    by (auto simp: set_unique_vals)
  finally show ?thesis .
qed

lemma many_treatments_iff:
  "1 < length (filter (\<lambda>x. x \<noteq> Str c) (unique_vals vs)) \<longleftrightarrow> 2 \<le> card (set vs - {Str c})"
  by (simp only: length_non_control) auto

subsection \<open>Validation errors\<close>

lemma get_unique_treatments_missing:
  "get_col (s ! df) tc = Inr vs \<Longrightarrow> Str c \<notin> set vs \<Longrightarrow>
   get_unique_treatments s df tc c = Inl MissingControlError"
  by (simp add: get_unique_treatments_def set_unique_vals)

lemma filter_missing_control:
  "get_col (s ! df) tc = Inr vs \<Longrightarrow> Str c \<notin> set vs \<Longrightarrow>
   snd (filter_by_treatment s df tc t c) = Inl MissingControlError"
  by (simp add: filter_by_treatment_def set_unique_vals)

lemma create_flag_missing_control:
  "get_col (s ! df) tc = Inr vs \<Longrightarrow> Str c \<notin> set vs \<Longrightarrow>
   snd (create_treatment_flag s df tc t c) = Inl MissingControlError"
  by (simp add: create_treatment_flag_def copy_frame_def new_frame_def
      get_unique_treatments_def set_unique_vals)

lemma create_flag_many:
  assumes "get_col (s ! df) tc = Inr vs" "2 \<le> card (set vs - {Str c})" "Str c \<in> set vs"
  shows "snd (create_treatment_flag s df tc t c) = Inl MultipleTreatmentsError"
  using assms many_treatments_iff [of c vs]
  by (simp add: create_treatment_flag_def copy_frame_def new_frame_def
      get_unique_treatments_def set_unique_vals Let_def del: card_Diff_insert)

lemma create_flag_missing_treatment:
  assumes "get_col (s ! df) tc = Inr vs" "Str c \<in> set vs" "Str t \<notin> set vs"
    "\<not> 2 \<le> card (set vs - {Str c})"
  shows "snd (create_treatment_flag s df tc t c) = Inl MissingTreatmentError"
  using assms many_treatments_iff [of c vs]
  by (simp add: create_treatment_flag_def copy_frame_def new_frame_def
      get_unique_treatments_def set_unique_vals Let_def del: card_Diff_insert)

lemma filter_missing_treatment:
  assumes "get_col (s ! df) tc = Inr vs" "Str t \<notin> set vs"
  shows "snd (filter_by_treatment s df tc t c) =
     (if Str c \<in> set vs then Inl MissingTreatmentError else Inl MissingControlError)"
  using assms
  by (simp add: filter_by_treatment_def set_unique_vals)

text \<open>
  Claim C6. When the treatment column does not contain the control label, treatment-set
  resolution, treatment-subset filtering and flag injection each raise
  MissingControlError; none of them returns a value.
\<close>

theorem missing_control_raises:
  assumes "get_col (s ! df) treatment_col = Inr vs" and "Str control_name \<notin> set vs"
  shows "get_unique_treatments s df treatment_col control_name = Inl MissingControlError
       \<and> snd (filter_by_treatment s df treatment_col treatment_name control_name)
           = Inl MissingControlError
       \<and> snd (create_treatment_flag s df treatment_col treatment_name control_name)
           = Inl MissingControlError"
  using assms
  by (simp add: get_unique_treatments_missing filter_missing_control
      create_flag_missing_control)

theorem missing_control_raises_witness:
  "get_col ([ex_ab] ! 0) ''treatment'' = Inr [Str ''A'', Str ''B'']
   \<and> Str ''control'' \<notin> set [Str ''A'', Str ''B'']
   \<and> get_unique_treatments [ex_ab] 0 ''treatment'' ''control'' = Inl MissingControlError
   \<and> snd (filter_by_treatment [ex_ab] 0 ''treatment'' ''A'' ''control'')
       = Inl MissingControlError
   \<and> snd (create_treatment_flag [ex_ab] 0 ''treatment'' ''A'' ''control'')
       = Inl MissingControlError"
proof -
  have h1: "get_col ([ex_ab] ! 0) ''treatment'' = Inr [Str ''A'', Str ''B'']"
    by (simp add: ex_ab_def get_col_def)
  have h2: "Str ''control'' \<notin> set [Str ''A'', Str ''B'']" by simp
  show ?thesis
    using missing_control_raises [where treatment_name = "''A''", OF h1 h2] h1 h2 by simp
qed

text \<open>
  Claim C3, as stated, fails: on a subset with the two non-control labels A and B and no
  control row, flag injection raises MissingControlError, not MultipleTreatmentsError.
  The count of non-control labels is taken by \<^verbatim>\<open>_get_unique_treatments\<close>, which checks
  for the control label first.
\<close>

theorem multiple_before_control_counterexample:
  "get_col ([ex_ab] ! 0) ''treatment'' = Inr [Str ''A'', Str ''B'']
   \<and> 2 \<le> card (set [Str ''A'', Str ''B''] - {Str ''control''})
   \<and> snd (create_treatment_flag [ex_ab] 0 ''treatment'' ''A'' ''control'')
       = Inl MissingControlError
   \<and> snd (create_treatment_flag [ex_ab] 0 ''treatment'' ''A'' ''control'')
       \<noteq> Inl MultipleTreatmentsError"
  by (simp add: ex_ab_def get_col_def create_treatment_flag_def copy_frame_def new_frame_def
      get_unique_treatments_def unique_vals_def)

text \<open>
  Claim C3, amended. On a subset with two or more distinct non-control labels, flag
  injection raises MultipleTreatmentsError when the control label is present, whether or
  not the requested treatment label is, and MissingControlError when the control label is
  absent: the order of the checks is control, multiple, treatment.
\<close>

theorem create_treatment_flag_check_order:
  assumes "get_col (s ! df) treatment_col = Inr vs"
    and "2 \<le> card (set vs - {Str control_name})"
  shows "snd (create_treatment_flag s df treatment_col treatment_name control_name) =
     (if Str control_name \<in> set vs then Inl MultipleTreatmentsError
      else Inl MissingControlError)"
proof (cases "Str control_name \<in> set vs")
  case True
  from create_flag_many [OF assms True] True show ?thesis by simp
next
  case False
  from create_flag_missing_control [OF assms(1) False] False show ?thesis by simp
qed

theorem create_treatment_flag_check_order_witness:
  "get_col ([ex_abc] ! 0) ''treatment'' = Inr [Str ''A'', Str ''B'', Str ''control'']
   \<and> 2 \<le> card (set [Str ''A'', Str ''B'', Str ''control''] - {Str ''control''})
   \<and> snd (create_treatment_flag [ex_abc] 0 ''treatment'' ''C'' ''control'')
       = Inl MultipleTreatmentsError"
proof -
  have h1: "get_col ([ex_abc] ! 0) ''treatment'' = Inr [Str ''A'', Str ''B'', Str ''control'']"
    by (simp add: ex_abc_def get_col_def)
  have h2: "2 \<le> card (set [Str ''A'', Str ''B'', Str ''control''] - {Str ''control''})"
    by simp
  show ?thesis
    using create_treatment_flag_check_order [where treatment_name = "''C''", OF h1 h2] h1 h2
    by simp
qed

text \<open>
  Claim C7, as stated, fails for flag injection: with the labels B, C and control present
  and A requested, it raises MultipleTreatmentsError, not MissingTreatmentError.
\<close>

theorem missing_treatment_counterexample:
  "get_col ([ex_bcc] ! 0) ''treatment'' = Inr [Str ''B'', Str ''C'', Str ''control'']
   \<and> Str ''control'' \<in> set [Str ''B'', Str ''C'', Str ''control'']
   \<and> Str ''A'' \<notin> set [Str ''B'', Str ''C'', Str ''control'']
   \<and> snd (create_treatment_flag [ex_bcc] 0 ''treatment'' ''A'' ''control'')
       = Inl MultipleTreatmentsError
   \<and> snd (create_treatment_flag [ex_bcc] 0 ''treatment'' ''A'' ''control'')
       \<noteq> Inl MissingTreatmentError"
  by (simp add: ex_bcc_def get_col_def create_treatment_flag_def copy_frame_def new_frame_def
      get_unique_treatments_def unique_vals_def)

text \<open>
  Claim C7, amended. When the requested treatment label is absent from the treatment
  column: the filter raises MissingTreatmentError if the control label is present and
  MissingControlError if it is not (control is checked first, both against the whole
  column); flag injection, with the control label present, raises MissingTreatmentError
  unless the column holds two or more distinct non-control labels, in which case it raises
  MultipleTreatmentsError.
\<close>

theorem missing_treatment_raises:
  assumes "get_col (s ! df) treatment_col = Inr vs" and "Str treatment_name \<notin> set vs"
  shows "snd (filter_by_treatment s df treatment_col treatment_name control_name) =
           (if Str control_name \<in> set vs then Inl MissingTreatmentError
            else Inl MissingControlError)
       \<and> (Str control_name \<in> set vs \<longrightarrow>
            snd (create_treatment_flag s df treatment_col treatment_name control_name) =
              (if 2 \<le> card (set vs - {Str control_name}) then Inl MultipleTreatmentsError
               else Inl MissingTreatmentError))"
proof (intro conjI impI)
  show "snd (filter_by_treatment s df treatment_col treatment_name control_name) =
      (if Str control_name \<in> set vs then Inl MissingTreatmentError
       else Inl MissingControlError)"
    by (rule filter_missing_treatment [OF assms])
next
  assume c: "Str control_name \<in> set vs"
  show "snd (create_treatment_flag s df treatment_col treatment_name control_name) =
      (if 2 \<le> card (set vs - {Str control_name}) then Inl MultipleTreatmentsError
       else Inl MissingTreatmentError)"
  proof (cases "2 \<le> card (set vs - {Str control_name})")
    case True
    from create_flag_many [OF assms(1) True c] True show ?thesis by simp
  next
    case False
    from create_flag_missing_treatment [OF assms(1) c assms(2) False] False
    show ?thesis by simp
  qed
qed

theorem missing_treatment_raises_witness:
  "get_col ([ex_cc] ! 0) ''treatment'' = Inr [Str ''control'', Str ''control'']
   \<and> Str ''A'' \<notin> set [Str ''control'', Str ''control'']
   \<and> Str ''control'' \<in> set [Str ''control'', Str ''control'']
   \<and> snd (filter_by_treatment [ex_cc] 0 ''treatment'' ''A'' ''control'')
       = Inl MissingTreatmentError
   \<and> snd (create_treatment_flag [ex_cc] 0 ''treatment'' ''A'' ''control'')
       = Inl MissingTreatmentError"
proof -
  have h1: "get_col ([ex_cc] ! 0) ''treatment'' = Inr [Str ''control'', Str ''control'']"
    by (simp add: ex_cc_def get_col_def)
  have h2: "Str ''A'' \<notin> set [Str ''control'', Str ''control'']" by simp
  show ?thesis
    using missing_treatment_raises [where control_name = "''control''", OF h1 h2] h1 h2
    by simp
qed

subsection \<open>Counterfactual scoring\<close>

lemma assign_flag: "assign_col f TREATMENT_FEATURE (flag_const (nrows f) b) = Inr (with_flag f b)"
  by (simp add: assign_col_def flag_const_def with_flag_def)

lemma drop_with_flag: "drop_col (with_flag f b) TREATMENT_FEATURE = Inr (without_flag f)"
  by (simp add: drop_col_def with_flag_def without_flag_def AList.dom_update
      AList.delete_update_same)

lemma predict_returns:
  assumes "df < length s" and "learner_fcn (with_flag (s ! df) b) = Inr pdf"
  shows "predict_by_treatment_flag s df learner_fcn b pc
           = (s[df := without_flag (s ! df)], get_col pdf pc)"
  using assms
  by (simp add: predict_by_treatment_flag_def assign_flag drop_with_flag Let_def
      split: sum.splits)

lemma predict_raises:
  assumes "df < length s" and "learner_fcn (with_flag (s ! df) b) = Inl e"
  shows "predict_by_treatment_flag s df learner_fcn b pc
           = (s[df := with_flag (s ! df) b], Inl e)"
  using assms
  by (simp add: predict_by_treatment_flag_def assign_flag Let_def)

lemma flag_not_in_without: "TREATMENT_FEATURE \<notin> set (map fst (cols (without_flag f)))"
  using AList.delete_notin_dom [of TREATMENT_FEATURE "cols f"]
  by (simp add: without_flag_def)

text \<open>
  Claim C4, as stated, fails: when the predictor raises, the exception leaves
  \<^verbatim>\<open>_predict_by_treatment_flag\<close> before the drop, and the flag column, absent before the
  call, is on the frame afterwards.
\<close>

theorem flag_left_on_failure_counterexample:
  "TREATMENT_FEATURE \<notin> set (map fst (cols ([ex_ab] ! 0)))
   \<and> snd (predict_by_treatment_flag [ex_ab] 0 failing_predictor True ''prediction'')
       = Inl (CollaboratorError ''predict failed'')
   \<and> TREATMENT_FEATURE \<in> set (map fst (cols
       (fst (predict_by_treatment_flag [ex_ab] 0 failing_predictor True ''prediction'') ! 0)))"
  by (simp add: predict_by_treatment_flag_def assign_col_def flag_const_def ex_ab_def
      failing_predictor_def TREATMENT_FEATURE_def)

text \<open>
  Claim C4, amended. Whenever the predictor itself returns (also when its output then
  lacks the prediction column), the flag column is not on the frame the scorer worked on
  after the call, whether or not it was there before.
\<close>

theorem flag_removed_when_predictor_returns:
  assumes "df < length s"
    and "learner_fcn (with_flag (s ! df) is_treatment) = Inr prediction_df"
  shows "TREATMENT_FEATURE \<notin> set (map fst (cols
           (fst (predict_by_treatment_flag s df learner_fcn is_treatment prediction_column)
              ! df)))"
  using assms flag_not_in_without [of "s ! df"]
  by (simp add: predict_returns del: set_map)

theorem flag_removed_when_predictor_returns_witness:
  "(0::nat) < length [ex_flagged]
   \<and> TREATMENT_FEATURE \<in> set (map fst (cols ([ex_flagged] ! 0)))
   \<and> ones_or_zeros_model (with_flag ([ex_flagged] ! 0) True)
       = Inr \<lparr>nrows = 2,
              cols = [(''x1'', [Num 1, Num 4]), (''is_treatment'', [Num 1, Num 1]),
                      (''prediction'', [Num 1, Num 1])]\<rparr>
   \<and> TREATMENT_FEATURE \<notin> set (map fst (cols
       (fst (predict_by_treatment_flag [ex_flagged] 0 ones_or_zeros_model True
               ''prediction'') ! 0)))"
proof -
  have h1: "(0::nat) < length [ex_flagged]" by simp
  have h2: "ones_or_zeros_model (with_flag ([ex_flagged] ! 0) True)
       = Inr \<lparr>nrows = 2,
              cols = [(''x1'', [Num 1, Num 4]), (''is_treatment'', [Num 1, Num 1]),
                      (''prediction'', [Num 1, Num 1])]\<rparr>"
    by (simp add: ones_or_zeros_model_def with_flag_def ex_flagged_def get_col_def
        assign_col_def flag_const_def TREATMENT_FEATURE_def numeral_2_eq_2)
  have h3: "TREATMENT_FEATURE \<in> set (map fst (cols ([ex_flagged] ! 0)))"
    by (simp add: ex_flagged_def TREATMENT_FEATURE_def)
  show ?thesis
    using flag_removed_when_predictor_returns
      [where s = "[ex_flagged]" and df = 0 and learner_fcn = ones_or_zeros_model
        and is_treatment = True and prediction_column = "''prediction''", OF h1 h2]
      h1 h2 h3
    by simp
qed

subsection \<open>Flag injection\<close>

lemma get_col_Inr_iff: "get_col f n = Inr vs \<longleftrightarrow> map_of (cols f) n = Some vs"
  by (simp add: get_col_def split: option.splits)

lemma wf_col_length:
  assumes "wf_frame f" "get_col f n = Inr vs"
  shows "length vs = nrows f"
proof -
  from assms(2) have "(n, vs) \<in> set (cols f)"
    by (simp add: get_col_Inr_iff map_of_SomeD)
  with assms(1) show ?thesis
    by (auto simp: wf_frame_def list_all_iff)
qed

lemma two_group_count:
  assumes "set vs \<subseteq> {Str t, Str c}"
  shows "\<not> 1 < length (filter (\<lambda>x. x \<noteq> Str c) (unique_vals vs))"
proof -
  have "set vs - {Str c} \<subseteq> {Str t}" using assms by auto
  then have "card (set vs - {Str c}) \<le> card {Str t}"
    by (intro card_mono) auto
  then show ?thesis by (simp add: length_non_control del: card_Diff_insert)
qed

lemma update_fresh: "k \<notin> fst ` set al \<Longrightarrow> AList.update k v al = al @ [(k, v)]"
  by (induction al) auto

text \<open>
  Claim C8. On a valid two-group subset (the treatment label and the control label both
  present, no other label), flag injection returns a new frame with the same rows: the
  flag column holds exactly 1.0 where the treatment column is the treatment label and
  exactly 0.0 where it is the control label, every other column is unchanged, the flag
  column comes last when it is new, and the store the caller had, the input frame
  included, is as it was.
\<close>

theorem create_treatment_flag_two_groups:
  assumes "wf_frame (s ! df)"
    and "get_col (s ! df) treatment_col = Inr vs"
    and "Str control_name \<in> set vs" and "Str treatment_name \<in> set vs"
    and "set vs \<subseteq> {Str treatment_name, Str control_name}"
    and "treatment_name \<noteq> control_name"
  shows "\<exists>f flags.
      create_treatment_flag s df treatment_col treatment_name control_name
        = (s @ [f], Inr (length s))
    \<and> nrows f = nrows (s ! df)
    \<and> get_col f TREATMENT_FEATURE = Inr flags
    \<and> length flags = nrows (s ! df)
    \<and> (\<forall>i < nrows (s ! df).
          (vs ! i = Str treatment_name \<longrightarrow> flags ! i = Num 1)
        \<and> (vs ! i = Str control_name \<longrightarrow> flags ! i = Num 0)
        \<and> (vs ! i = Str treatment_name \<or> vs ! i = Str control_name))
    \<and> (\<forall>n. n \<noteq> TREATMENT_FEATURE \<longrightarrow> get_col f n = get_col (s ! df) n)
    \<and> map fst (cols f) =
        (if TREATMENT_FEATURE \<in> set (map fst (cols (s ! df))) then map fst (cols (s ! df))
         else map fst (cols (s ! df)) @ [TREATMENT_FEATURE])
    \<and> (TREATMENT_FEATURE \<notin> set (map fst (cols (s ! df))) \<longrightarrow>
          cols f = cols (s ! df) @ [(TREATMENT_FEATURE, flags)])"
proof -
  let ?flags = "map (\<lambda>v. if v = Str treatment_name then Num 1 else Num 0) vs"
  let ?f = "(s ! df)\<lparr>cols := AList.update TREATMENT_FEATURE ?flags (cols (s ! df))\<rparr>"
  have len: "length vs = nrows (s ! df)" by (rule wf_col_length [OF assms(1,2)])
  have run: "create_treatment_flag s df treatment_col treatment_name control_name
        = (s @ [?f], Inr (length s))"
    using assms(2,3,4) two_group_count [OF assms(5)] len
    by (simp add: create_treatment_flag_def copy_frame_def new_frame_def
        get_unique_treatments_def set_unique_vals Let_def assign_col_def)
  have rows: "\<forall>i < nrows (s ! df).
          (vs ! i = Str treatment_name \<longrightarrow> ?flags ! i = Num 1)
        \<and> (vs ! i = Str control_name \<longrightarrow> ?flags ! i = Num 0)
        \<and> (vs ! i = Str treatment_name \<or> vs ! i = Str control_name)"
  proof (intro allI impI)
    fix i assume "i < nrows (s ! df)"
    then have i: "i < length vs" using len by simp
    then have "vs ! i \<in> set vs" by simp
    with assms(5) have "vs ! i = Str treatment_name \<or> vs ! i = Str control_name" by auto
    with i assms(6) show "(vs ! i = Str treatment_name \<longrightarrow> ?flags ! i = Num 1)
        \<and> (vs ! i = Str control_name \<longrightarrow> ?flags ! i = Num 0)
        \<and> (vs ! i = Str treatment_name \<or> vs ! i = Str control_name)"
      by auto
  qed
  have others: "\<forall>n. n \<noteq> TREATMENT_FEATURE \<longrightarrow> get_col ?f n = get_col (s ! df) n"
    by (simp add: get_col_def AList.update_conv')
  have names: "map fst (cols ?f) =
        (if TREATMENT_FEATURE \<in> set (map fst (cols (s ! df))) then map fst (cols (s ! df))
         else map fst (cols (s ! df)) @ [TREATMENT_FEATURE])"
    by (simp add: AList.update_keys)
  have app: "TREATMENT_FEATURE \<notin> set (map fst (cols (s ! df))) \<longrightarrow>
          cols ?f = cols (s ! df) @ [(TREATMENT_FEATURE, ?flags)]"
    by (simp add: update_fresh)
  have flag: "get_col ?f TREATMENT_FEATURE = Inr ?flags"
    by (simp add: get_col_def AList.update_conv')
  show ?thesis
    apply (rule exI [of _ ?f])
    apply (rule exI [of _ ?flags])
    using run rows others names app flag len
    apply (intro conjI)
    apply simp_all
    done
qed

theorem create_treatment_flag_two_groups_witness:
  "wf_frame ([ex_group] ! 0)
   \<and> get_col ([ex_group] ! 0) ''group''
       = Inr [Str ''treatment'', Str ''treatment'', Str ''control'', Str ''control'']
   \<and> Str ''control'' \<in> set [Str ''treatment'', Str ''treatment'', Str ''control'', Str ''control'']
   \<and> Str ''treatment'' \<in> set [Str ''treatment'', Str ''treatment'', Str ''control'', Str ''control'']
   \<and> set [Str ''treatment'', Str ''treatment'', Str ''control'', Str ''control'']
       \<subseteq> {Str ''treatment'', Str ''control''}
   \<and> ''treatment'' \<noteq> ''control''
   \<and> (\<exists>f flags. create_treatment_flag [ex_group] 0 ''group'' ''treatment'' ''control''
          = ([ex_group] @ [f], Inr 1)
        \<and> get_col f TREATMENT_FEATURE = Inr flags
        \<and> flags ! 0 = Num 1 \<and> flags ! 3 = Num 0
        \<and> cols f = cols ex_group @ [(TREATMENT_FEATURE, flags)])"
proof -
  let ?vs = "[Str ''treatment'', Str ''treatment'', Str ''control'', Str ''control'']"
  have h1: "wf_frame ([ex_group] ! 0)" by (simp add: wf_frame_def ex_group_def)
  have h2: "get_col ([ex_group] ! 0) ''group'' = Inr ?vs"
    by (simp add: ex_group_def get_col_def)
  have h3: "Str ''control'' \<in> set ?vs" by simp
  have h4: "Str ''treatment'' \<in> set ?vs" by simp
  have h5: "set ?vs \<subseteq> {Str ''treatment'', Str ''control''}" by simp
  have h6: "''treatment'' \<noteq> ''control''" by simp
  have n: "nrows ([ex_group] ! 0) = 4"
    and a: "TREATMENT_FEATURE \<notin> set (map fst (cols ([ex_group] ! 0)))"
    by (simp_all add: ex_group_def TREATMENT_FEATURE_def)
  from create_treatment_flag_two_groups [OF h1 h2 h3 h4 h5 h6] obtain f flags where
    r: "create_treatment_flag [ex_group] 0 ''group'' ''treatment'' ''control''
          = ([ex_group] @ [f], Inr (length [ex_group]))"
    and g: "get_col f TREATMENT_FEATURE = Inr flags"
    and v: "\<forall>i < nrows ([ex_group] ! 0).
          (?vs ! i = Str ''treatment'' \<longrightarrow> flags ! i = Num 1)
        \<and> (?vs ! i = Str ''control'' \<longrightarrow> flags ! i = Num 0)
        \<and> (?vs ! i = Str ''treatment'' \<or> ?vs ! i = Str ''control'')"
    and c: "TREATMENT_FEATURE \<notin> set (map fst (cols ([ex_group] ! 0))) \<longrightarrow>
          cols f = cols ([ex_group] ! 0) @ [(TREATMENT_FEATURE, flags)]"
    by blast
  from v n have "flags ! 0 = Num 1" by (elim allE [of _ 0]) simp
  moreover from v n have "flags ! 3 = Num 0" by (elim allE [of _ 3]) simp
  moreover from c a have "cols f = cols ex_group @ [(TREATMENT_FEATURE, flags)]" by simp
  ultimately show ?thesis using h1 h2 h3 h4 h5 h6 r g
    by (intro conjI exI [of _ f] exI [of _ flags]) simp_all
qed

subsection \<open>The caller's frames\<close>

lemma predict_take:
  "n \<le> df \<Longrightarrow> take n (fst (predict_by_treatment_flag s df l b pc)) = take n s"
  by (simp add: predict_by_treatment_flag_def Let_def split: sum.splits)

lemma predict_length:
  "length (fst (predict_by_treatment_flag s df l b pc)) = length s"
  by (simp add: predict_by_treatment_flag_def Let_def split: sum.splits)

lemma score_treatment_take:
  assumes "n \<le> sd"
  shows "take n (fst (score_treatment s sd learners pc t)) = take n s"
proof -
  have p1: "\<And>s l b s1 r. predict_by_treatment_flag s sd l b pc = (s1, r) \<Longrightarrow> take n s1 = take n s"
    using predict_take [OF assms] by (metis fst_conv)
  show ?thesis
    using assms
    by (auto simp: score_treatment_def split: option.splits sum.splits prod.splits dest!: p1)
qed

lemma simulate_loop_take:
  "n \<le> sd \<Longrightarrow> take n (fst (simulate_loop s sd learners pc ucols ts)) = take n s"
proof (induction ts arbitrary: s ucols)
  case Nil
  then show ?case by simp
next
  case (Cons t ts)
  obtain s' r where st: "score_treatment s sd learners pc t = (s', r)"
    by (cases "score_treatment s sd learners pc t")
  have t1: "take n s' = take n s"
    using score_treatment_take [OF Cons.prems, of s learners pc t] st by simp
  show ?case
  proof (cases r)
    case (Inl e)
    with st t1 show ?thesis by simp
  next
    case (Inr u)
    with st t1 Cons.IH [OF Cons.prems, of s' "ucols @ [u]"] show ?thesis by simp
  qed
qed

lemma simulate_take:
  "take (length s) (fst (simulate_treatment_effect s df ts c learners pc)) = s"
proof -
  obtain s1 r where lp: "simulate_loop (s @ [s ! df]) (length s) learners pc [] ts = (s1, r)"
    by (cases "simulate_loop (s @ [s ! df]) (length s) learners pc [] ts")
  have "take (length s) s1 = take (length s) (s @ [s ! df])"
    using simulate_loop_take [of "length s" "length s" "s @ [s ! df]" learners pc "[]" ts] lp
    by simp
  then have t1: "take (length s) s1 = s" by simp
  show ?thesis
    using lp t1
    by (simp add: simulate_treatment_effect_def copy_frame_def new_frame_def Let_def
        split: sum.splits)
qed

text \<open>
  Claim C10. \<^verbatim>\<open>_simulate_treatment_effect\<close>, and with it the prediction closure,
  changes no frame of the caller: whatever the outcome, every frame that existed before
  the call, the input frame included, is as it was; all columns are written to frames
  allocated during the call. (Predictors are functions of the frame's value, so they
  cannot change their input.)
\<close>

theorem simulate_leaves_caller_frames:
  "take (length s) (fst (simulate_treatment_effect s df treatments control_name learners
       prediction_column)) = s
   \<and> take (length s) (fst (p treatments learners control_name prediction_column s df)) = s"
  by (simp add: p_def simulate_take)

subsection \<open>Per-treatment fitting\<close>

lemma uniq_acc_cong: "set seen = set seen' \<Longrightarrow> uniq_acc seen xs = uniq_acc seen' xs"
proof (induction xs arbitrary: seen seen')
  case Nil
  then show ?case by simp
next
  case (Cons x xs)
  have "uniq_acc (x # seen) xs = uniq_acc (x # seen') xs"
    by (rule Cons.IH) (simp add: Cons.prems)
  moreover have "uniq_acc seen xs = uniq_acc seen' xs"
    by (rule Cons.IH) (rule Cons.prems)
  ultimately show ?case using Cons.prems by simp
qed

lemma uniq_acc_distinct: "distinct xs \<Longrightarrow> set xs \<inter> set seen = {} \<Longrightarrow> uniq_acc seen xs = xs"
  by (induction xs arbitrary: seen) auto

lemma unique_vals_distinct: "distinct xs \<Longrightarrow> unique_vals xs = xs"
  by (simp add: unique_vals_def uniq_acc_distinct)

lemma keys_update_uniq:
  "map fst (AList.update t v al) @ uniq_acc (map fst (AList.update t v al)) ts
     = map fst al @ uniq_acc (map fst al) (t # ts)"
proof (cases "t \<in> set (map fst al)")
  case True
  then show ?thesis by (simp add: AList.update_keys)
next
  case False
  have "uniq_acc (map fst al @ [t]) ts = uniq_acc (t # map fst al) ts"
    by (rule uniq_acc_cong) auto
  with False show ?thesis by (simp add: AList.update_keys)
qed

lemma fit_loop_keys:
  "fit_loop s df learner tc c fl ll ts = (s', Inr (fl', ll')) \<Longrightarrow>
     map fst fl' = map fst fl @ uniq_acc (map fst fl) ts
   \<and> map fst ll' = map fst ll @ uniq_acc (map fst ll) ts"
proof (induction ts arbitrary: s fl ll)
  case Nil
  then show ?case by simp
next
  case (Cons t ts)
  obtain s1 r where one: "fit_one s df learner tc c t = (s1, r)"
    by (cases "fit_one s df learner tc c t")
  show ?case
  proof (cases r)
    case (Inl e)
    with one Cons.prems show ?thesis by simp
  next
    case (Inr pl)
    obtain pf lg where pl: "pl = (pf, lg)" by (cases pl)
    from Cons.prems one Inr pl
    have "fit_loop s1 df learner tc c (AList.update t pf fl) (AList.update t lg ll) ts
            = (s', Inr (fl', ll'))" by simp
    from Cons.IH [OF this] show ?thesis
      by (simp only: keys_update_uniq)
  qed
qed

lemma filter_store:
  "\<exists>ext. fst (filter_by_treatment s df tc t c) = s @ ext"
  by (simp add: filter_by_treatment_def new_frame_def Let_def split: sum.splits)

lemma create_flag_store:
  "\<exists>ext. fst (create_treatment_flag s df tc t c) = s @ ext"
  by (auto simp add: create_treatment_flag_def copy_frame_def new_frame_def Let_def
      list_update_append split: sum.splits)

lemma fit_one_store: "\<exists>ext. fst (fit_one s df learner tc c t) = s @ ext"
proof -
  obtain s1 r1 where f: "filter_by_treatment s df tc t c = (s1, r1)"
    by (cases "filter_by_treatment s df tc t c")
  from filter_store [of s df tc t c] f obtain e1 where e1: "s1 = s @ e1" by auto
  show ?thesis
  proof (cases r1)
    case (Inl e)
    with f e1 show ?thesis by (simp add: fit_one_def)
  next
    case (Inr tcr)
    obtain s2 r2 where g: "create_treatment_flag s1 tcr tc t c = (s2, r2)"
      by (cases "create_treatment_flag s1 tcr tc t c")
    from create_flag_store [of s1 tcr tc t c] g obtain e2 where e2: "s2 = s1 @ e2" by auto
    from f Inr g e1 e2 show ?thesis
      by (auto simp add: fit_one_def split: sum.splits)
  qed
qed

lemma fit_one_indep:
  assumes "df < length s"
  shows "snd (fit_one (s @ ext) df learner tc c t) = snd (fit_one s df learner tc c t)"
  using assms
  by (simp add: fit_one_def filter_by_treatment_def create_treatment_flag_def copy_frame_def
      new_frame_def get_unique_treatments_def Let_def nth_append assign_col_def
      split: sum.splits)

lemma fit_loop_fails:
  assumes "df < length s"
    and "\<forall>u\<in>set pre. \<exists>r. snd (fit_one s df learner tc c u) = Inr r"
    and "snd (fit_one s df learner tc c t) = Inl e"
  shows "snd (fit_loop s df learner tc c fl ll (pre @ t # post)) = Inl e"
  using assms
proof (induction pre arbitrary: s fl ll)
  case Nil
  obtain s1 r where one: "fit_one s df learner tc c t = (s1, r)"
    by (cases "fit_one s df learner tc c t")
  with Nil show ?case by simp
next
  case (Cons u pre)
  obtain s1 r where one: "fit_one s df learner tc c u = (s1, r)"
    by (cases "fit_one s df learner tc c u")
  from Cons.prems(2) one obtain pf lg where r: "r = Inr (pf, lg)" by auto
  from fit_one_store [of s df learner tc c u] one obtain ext where ext: "s1 = s @ ext" by auto
  have ind: "\<And>v. snd (fit_one s1 df learner tc c v) = snd (fit_one s df learner tc c v)"
    unfolding ext by (rule fit_one_indep [OF Cons.prems(1)])
  have "snd (fit_loop s1 df learner tc c (AList.update u pf fl) (AList.update u lg ll)
           (pre @ t # post)) = Inl e"
  proof (rule Cons.IH)
    show "df < length s1" using Cons.prems(1) ext by simp
    show "\<forall>u\<in>set pre. \<exists>r. snd (fit_one s1 df learner tc c u) = Inr r"
      using Cons.prems(2) by (simp add: ind)
    show "snd (fit_one s1 df learner tc c t) = Inl e"
      using Cons.prems(3) by (simp add: ind)
  qed
  with one r show ?case by simp
qed

lemma fit_loop_succeeds:
  assumes "df < length s"
    and "\<forall>u\<in>set ts. \<exists>r. snd (fit_one s df learner tc c u) = Inr r"
  shows "\<exists>s' fl' ll'. fit_loop s df learner tc c fl ll ts = (s', Inr (fl', ll'))
     \<and> (\<forall>u\<in>set ts. \<forall>pf lg. snd (fit_one s df learner tc c u) = Inr (pf, lg) \<longrightarrow>
           map_of fl' u = Some pf \<and> map_of ll' u = Some lg)
     \<and> (\<forall>u. u \<notin> set ts \<longrightarrow> map_of fl' u = map_of fl u \<and> map_of ll' u = map_of ll u)"
  using assms
proof (induction ts arbitrary: s fl ll)
  case Nil
  then show ?case by simp
next
  case (Cons t ts)
  obtain s1 r where one: "fit_one s df learner tc c t = (s1, r)"
    by (cases "fit_one s df learner tc c t")
  from Cons.prems(2) one obtain pf lg where r: "r = Inr (pf, lg)" by auto
  from fit_one_store [of s df learner tc c t] one obtain ext where ext: "s1 = s @ ext" by auto
  have ind: "\<And>v. snd (fit_one s1 df learner tc c v) = snd (fit_one s df learner tc c v)"
    unfolding ext by (rule fit_one_indep [OF Cons.prems(1)])
  have "\<exists>s' fl' ll'. fit_loop s1 df learner tc c (AList.update t pf fl) (AList.update t lg ll) ts
           = (s', Inr (fl', ll'))
     \<and> (\<forall>u\<in>set ts. \<forall>pf lg. snd (fit_one s1 df learner tc c u) = Inr (pf, lg) \<longrightarrow>
           map_of fl' u = Some pf \<and> map_of ll' u = Some lg)
     \<and> (\<forall>u. u \<notin> set ts \<longrightarrow> map_of fl' u = map_of (AList.update t pf fl) u
            \<and> map_of ll' u = map_of (AList.update t lg ll) u)"
  proof (rule Cons.IH)
    show "df < length s1" using Cons.prems(1) ext by simp
    show "\<forall>u\<in>set ts. \<exists>r. snd (fit_one s1 df learner tc c u) = Inr r"
      using Cons.prems(2) by (simp add: ind)
  qed
  then obtain s' fl' ll' where
    run: "fit_loop s1 df learner tc c (AList.update t pf fl) (AList.update t lg ll) ts
           = (s', Inr (fl', ll'))"
    and inn: "\<forall>u\<in>set ts. \<forall>pf lg. snd (fit_one s df learner tc c u) = Inr (pf, lg) \<longrightarrow>
           map_of fl' u = Some pf \<and> map_of ll' u = Some lg"
    and out: "\<forall>u. u \<notin> set ts \<longrightarrow> map_of fl' u = map_of (AList.update t pf fl) u
            \<and> map_of ll' u = map_of (AList.update t lg ll) u"
    unfolding ind by blast
  have here: "snd (fit_one s df learner tc c t) = Inr (pf, lg)" using one r by simp
  have "fit_loop s df learner tc c fl ll (t # ts) = (s', Inr (fl', ll'))"
    using one r run by simp
  moreover have "\<forall>u\<in>set (t # ts). \<forall>pf lg. snd (fit_one s df learner tc c u) = Inr (pf, lg) \<longrightarrow>
           map_of fl' u = Some pf \<and> map_of ll' u = Some lg"
  proof (intro ballI allI impI)
    fix u pf' lg'
    assume u: "u \<in> set (t # ts)" and v: "snd (fit_one s df learner tc c u) = Inr (pf', lg')"
    show "map_of fl' u = Some pf' \<and> map_of ll' u = Some lg'"
    proof (cases "u \<in> set ts")
      case True
      with inn v show ?thesis by blast
    next
      case False
      with u have ut: "u = t" by simp
      with v here have "pf' = pf" "lg' = lg" by simp_all
      with out False ut show ?thesis by (simp add: AList.update_conv')
    qed
  qed
  moreover have "\<forall>u. u \<notin> set (t # ts) \<longrightarrow> map_of fl' u = map_of fl u \<and> map_of ll' u = map_of ll u"
    using out by (simp add: AList.update_conv')
  ultimately show ?case by blast
qed

lemma first_failure:
  assumes "\<exists>t\<in>set ts. \<exists>e. snd (fit_one s df learner tc c t) = Inl e"
  shows "\<exists>pre t post e. ts = pre @ t # post
      \<and> (\<forall>u\<in>set pre. \<exists>r. snd (fit_one s df learner tc c u) = Inr r)
      \<and> snd (fit_one s df learner tc c t) = Inl e"
proof -
  from split_list_first_prop [OF assms] obtain pre t post where
    ts: "ts = pre @ t # post" and f: "\<exists>e. snd (fit_one s df learner tc c t) = Inl e"
    and g: "\<forall>u\<in>set pre. \<not> (\<exists>e. snd (fit_one s df learner tc c u) = Inl e)"
    by blast
  have "\<forall>u\<in>set pre. \<exists>r. snd (fit_one s df learner tc c u) = Inr r"
  proof
    fix u assume "u \<in> set pre"
    with g have "\<not> (\<exists>e. snd (fit_one s df learner tc c u) = Inl e)" by blast
    then show "\<exists>r. snd (fit_one s df learner tc c u) = Inr r"
      by (cases "snd (fit_one s df learner tc c u)") auto
  qed
  with ts f show ?thesis by blast
qed

text \<open>
  Claim C5. \<^verbatim>\<open>_fit_by_treatment\<close> returns two dicts whose keys are the given
  treatment labels in order of first occurrence (the list itself when it has no
  repetition), each label mapped to the predictor and the log its own fit returned; it
  returns them whenever every per-treatment fit succeeds; and when the fit of a label
  raises after the fits before it succeeded, that exception is the outcome of the whole
  call and no dict is returned.
\<close>

theorem fit_by_treatment_keys_and_failure:
  assumes "df < length s"
  shows "(\<forall>fl ll. snd (fit_by_treatment s df learner treatment_col control_name treatments)
              = Inr (fl, ll) \<longrightarrow>
            map fst fl = unique_vals treatments \<and> map fst ll = unique_vals treatments
          \<and> (distinct treatments \<longrightarrow> map fst fl = treatments \<and> map fst ll = treatments)
          \<and> (\<forall>t\<in>set treatments. \<exists>pf lg.
                snd (fit_one s df learner treatment_col control_name t) = Inr (pf, lg)
              \<and> map_of fl t = Some pf \<and> map_of ll t = Some lg))
       \<and> ((\<forall>t\<in>set treatments. \<exists>r.
              snd (fit_one s df learner treatment_col control_name t) = Inr r) \<longrightarrow>
            (\<exists>fl ll. snd (fit_by_treatment s df learner treatment_col control_name treatments)
               = Inr (fl, ll)))
       \<and> (\<forall>pre t post e. treatments = pre @ t # post
            \<and> (\<forall>u\<in>set pre. \<exists>r. snd (fit_one s df learner treatment_col control_name u) = Inr r)
            \<and> snd (fit_one s df learner treatment_col control_name t) = Inl e \<longrightarrow>
            snd (fit_by_treatment s df learner treatment_col control_name treatments) = Inl e)"
proof (intro conjI allI impI)
  fix fl ll
  assume ok: "snd (fit_by_treatment s df learner treatment_col control_name treatments)
              = Inr (fl, ll)"
  then obtain s' where run: "fit_loop s df learner treatment_col control_name [] [] treatments
      = (s', Inr (fl, ll))"
    by (cases "fit_loop s df learner treatment_col control_name [] [] treatments")
       (simp add: fit_by_treatment_def)
  from fit_loop_keys [OF run]
  show k1: "map fst fl = unique_vals treatments" and k2: "map fst ll = unique_vals treatments"
    by (simp_all add: unique_vals_def)
  show "distinct treatments \<Longrightarrow> map fst fl = treatments"
    using k1 by (simp add: unique_vals_distinct)
  show "distinct treatments \<Longrightarrow> map fst ll = treatments"
    using k2 by (simp add: unique_vals_distinct)
  have all_ok: "\<forall>t\<in>set treatments. \<exists>r.
      snd (fit_one s df learner treatment_col control_name t) = Inr r"
  proof (rule ccontr)
    assume "\<not> ?thesis"
    then have "\<exists>t\<in>set treatments. \<exists>e.
        snd (fit_one s df learner treatment_col control_name t) = Inl e"
      by (metis sum.exhaust)
    from first_failure [OF this] obtain pre t post e where
      "treatments = pre @ t # post"
      "\<forall>u\<in>set pre. \<exists>r. snd (fit_one s df learner treatment_col control_name u) = Inr r"
      "snd (fit_one s df learner treatment_col control_name t) = Inl e"
      by blast
    with fit_loop_fails [OF assms, of pre learner treatment_col control_name t e "[]" "[]" post]
    have "snd (fit_by_treatment s df learner treatment_col control_name treatments) = Inl e"
      by (simp add: fit_by_treatment_def)
    with ok show False by simp
  qed
  from fit_loop_succeeds [OF assms all_ok, of "[]" "[]"] run
  show "\<forall>t\<in>set treatments. \<exists>pf lg.
                snd (fit_one s df learner treatment_col control_name t) = Inr (pf, lg)
              \<and> map_of fl t = Some pf \<and> map_of ll t = Some lg"
    using all_ok by (metis Pair_inject old.prod.exhaust sum.inject(2))
next
  assume "\<forall>t\<in>set treatments. \<exists>r.
              snd (fit_one s df learner treatment_col control_name t) = Inr r"
  from fit_loop_succeeds [OF assms this, of "[]" "[]"]
  show "\<exists>fl ll. snd (fit_by_treatment s df learner treatment_col control_name treatments)
               = Inr (fl, ll)"
    by (auto simp: fit_by_treatment_def)
next
  fix pre t post e
  assume "treatments = pre @ t # post
            \<and> (\<forall>u\<in>set pre. \<exists>r. snd (fit_one s df learner treatment_col control_name u) = Inr r)
            \<and> snd (fit_one s df learner treatment_col control_name t) = Inl e"
  with fit_loop_fails [OF assms, of pre learner treatment_col control_name t e "[]" "[]" post]
  show "snd (fit_by_treatment s df learner treatment_col control_name treatments) = Inl e"
    by (simp add: fit_by_treatment_def)
qed

lemmas fit_eval = fit_one_def filter_by_treatment_def create_treatment_flag_def copy_frame_def
      new_frame_def get_unique_treatments_def Let_def assign_col_def get_col_def
      unique_vals_def loc_rows_def select_mask_def ex_fit_def

lemma fit_one_A:
  "snd (fit_one [ex_fit] 0 counting_learner ''treatment'' ''control'' ''A'')
     = Inr (ones_or_zeros_model, 6)"
  by (simp add: fit_eval counting_learner_def)

lemma fit_one_B:
  "snd (fit_one [ex_fit] 0 counting_learner ''treatment'' ''control'' ''B'')
     = Inr (ones_or_zeros_model, 6)"
  by (simp add: fit_eval counting_learner_def)

lemma fit_one_A':
  "snd (fit_one [ex_fit] 0 learner_failing_on_B ''treatment'' ''control'' ''A'')
     = Inr (ones_or_zeros_model, 6)"
  by (simp add: fit_eval learner_failing_on_B_def TREATMENT_FEATURE_def)

lemma fit_one_B':
  "snd (fit_one [ex_fit] 0 learner_failing_on_B ''treatment'' ''control'' ''B'')
     = Inl (CollaboratorError ''fit failed'')"
  by (simp add: fit_eval learner_failing_on_B_def TREATMENT_FEATURE_def)

theorem fit_by_treatment_keys_and_failure_witness:
  "(0::nat) < length [ex_fit]
   \<and> snd (fit_one [ex_fit] 0 counting_learner ''treatment'' ''control'' ''A'')
       = Inr (ones_or_zeros_model, 6)
   \<and> snd (fit_one [ex_fit] 0 counting_learner ''treatment'' ''control'' ''B'')
       = Inr (ones_or_zeros_model, 6)
   \<and> (\<exists>fl ll. snd (fit_by_treatment [ex_fit] 0 counting_learner ''treatment'' ''control''
                    [''A'', ''B'']) = Inr (fl, ll)
        \<and> map fst fl = [''A'', ''B''] \<and> map fst ll = [''A'', ''B'']
        \<and> map_of fl ''A'' = Some ones_or_zeros_model \<and> map_of ll ''B'' = Some 6)
   \<and> snd (fit_one [ex_fit] 0 learner_failing_on_B ''treatment'' ''control'' ''A'')
       = Inr (ones_or_zeros_model, 6)
   \<and> snd (fit_one [ex_fit] 0 learner_failing_on_B ''treatment'' ''control'' ''B'')
       = Inl (CollaboratorError ''fit failed'')
   \<and> snd (fit_by_treatment [ex_fit] 0 learner_failing_on_B ''treatment'' ''control''
            [''A'', ''B'']) = Inl (CollaboratorError ''fit failed'')"
proof -
  have h: "(0::nat) < length [ex_fit]" by simp
  note ok = fit_by_treatment_keys_and_failure [OF h, where learner = counting_learner and treatment_col = "''treatment''"
      and control_name = "''control''" and treatments = "[''A'', ''B'']"]
  note bad = fit_by_treatment_keys_and_failure [OF h, where learner = learner_failing_on_B and treatment_col = "''treatment''"
      and control_name = "''control''" and treatments = "[''A'', ''B'']"]
  have all: "\<forall>t\<in>set [''A'', ''B'']. \<exists>r.
      snd (fit_one [ex_fit] 0 counting_learner ''treatment'' ''control'' t) = Inr r"
    using fit_one_A fit_one_B by simp
  with ok obtain fl ll where
    run: "snd (fit_by_treatment [ex_fit] 0 counting_learner ''treatment'' ''control''
                    [''A'', ''B'']) = Inr (fl, ll)" by blast
  note c1 = ok [THEN conjunct1, rule_format, OF run]
  have d: "distinct [''A'', ''B'']" by simp
  from c1 d have keys: "map fst fl = [''A'', ''B'']" "map fst ll = [''A'', ''B'']"
    by blast+
  from c1 have vals: "\<forall>t\<in>set [''A'', ''B'']. \<exists>pf lg.
                snd (fit_one [ex_fit] 0 counting_learner ''treatment'' ''control'' t) = Inr (pf, lg)
              \<and> map_of fl t = Some pf \<and> map_of ll t = Some lg"
    by blast
  from vals fit_one_A fit_one_B
  have v: "map_of fl ''A'' = Some ones_or_zeros_model" "map_of ll ''B'' = Some 6"
    by auto
  have "[''A'', ''B''] = [''A''] @ ''B'' # []
      \<and> (\<forall>u\<in>set [''A'']. \<exists>r.
            snd (fit_one [ex_fit] 0 learner_failing_on_B ''treatment'' ''control'' u) = Inr r)
      \<and> snd (fit_one [ex_fit] 0 learner_failing_on_B ''treatment'' ''control'' ''B'')
           = Inl (CollaboratorError ''fit failed'')"
    using fit_one_A' fit_one_B' by simp
  with bad have f: "snd (fit_by_treatment [ex_fit] 0 learner_failing_on_B ''treatment''
        ''control'' [''A'', ''B'']) = Inl (CollaboratorError ''fit failed'')"
    by blast
  show ?thesis
    apply (insert h fit_one_A fit_one_B fit_one_A' fit_one_B' run keys v f)
    apply (intro conjI exI [of _ fl] exI [of _ ll])
    apply assumption+
    done
qed

subsection \<open>The treatment-subset filter\<close>

lemma select_mask_map: "select_mask (map P vs) vs = filter P vs"
  by (induction vs) (auto simp: select_mask_def)

lemma length_filter_id_map: "length (filter id (map P vs)) = length (filter P vs)"
  by (induction vs) auto

lemma upt_Suc_shift: "[0..<Suc n] = 0 # map Suc [0..<n]"
  by (simp add: upt_conv_Cons map_Suc_upt del: upt_Suc)

lemma filter_nth_upt_Cons:
  "filter (\<lambda>i. (m # ms) ! i) [0..<Suc n]
     = (if m then [0] else []) @ map Suc (filter (\<lambda>i. ms ! i) [0..<n])"
  by (subst upt_Suc_shift) (simp add: filter_map comp_def del: upt_Suc)

lemma select_mask_index:
  "length vs = length msk \<Longrightarrow>
   select_mask msk vs = map (\<lambda>i. vs ! i) (filter (\<lambda>i. msk ! i) [0..<length vs])"
proof (induction vs msk rule: list_induct2)
  case Nil
  then show ?case by (simp add: select_mask_def)
next
  case (Cons x xs m ms)
  have "select_mask (m # ms) (x # xs) = (if m then [x] else []) @ select_mask ms xs"
    by (simp add: select_mask_def)
  moreover have "map (\<lambda>i. (x # xs) ! i) (filter (\<lambda>i. (m # ms) ! i) [0..<Suc (length xs)])
      = (if m then [x] else []) @ map (\<lambda>i. xs ! i) (filter (\<lambda>i. ms ! i) [0..<length xs])"
    by (simp only: filter_nth_upt_Cons) (simp add: comp_def)
  ultimately show ?case using Cons.IH by (simp del: upt_Suc)
qed

lemma length_filter_id_index:
  "length (filter id msk) = length (filter (\<lambda>i. msk ! i) [0..<length msk])"
proof (induction msk)
  case Nil
  then show ?case by simp
next
  case (Cons m ms)
  have "length (filter id (m # ms)) = (if m then 1 else 0) + length (filter id ms)"
    by simp
  also have "\<dots> = (if m then 1 else 0) + length (filter (\<lambda>i. ms ! i) [0..<length ms])"
    by (simp only: Cons.IH)
  also have "\<dots> = length (filter (\<lambda>i. (m # ms) ! i) [0..<Suc (length ms)])"
    by (simp only: filter_nth_upt_Cons) simp
  finally show ?case unfolding length_Cons .
qed

lemma map_nth_upt: "map (\<lambda>j. g (xs ! j)) [0..<length xs] = map g xs"
proof -
  have "map (\<lambda>j. g (xs ! j)) [0..<length xs] = map g (map ((!) xs) [0..<length xs])"
    by (simp add: comp_def)
  then show ?thesis by (simp only: map_nth)
qed

lemma map_of_row:
  "map_of (map (\<lambda>p. (fst p, snd p ! i)) al) k = map_option (\<lambda>vs. vs ! i) (map_of al k)"
  by (induction al) auto

lemma map_of_select:
  "map_of (map (\<lambda>p. (fst p, g (snd p))) al) k = map_option g (map_of al k)"
  by (induction al) auto

lemma rows_of_loc_rows:
  assumes wf: "wf_frame f" and col: "get_col f tc = Inr vs"
  shows "rows_of (loc_rows f (map P vs))
       = filter (\<lambda>row. case map_of row tc of None \<Rightarrow> False | Some v \<Rightarrow> P v) (rows_of f)"
proof -
  let ?n = "nrows f"
  let ?msk = "map P vs"
  let ?keep = "filter (\<lambda>i. ?msk ! i) [0..<?n]"
  let ?row = "\<lambda>i. map (\<lambda>p. (fst p, snd p ! i)) (cols f)"
  let ?Q = "\<lambda>row. case map_of row tc of None \<Rightarrow> False | Some v \<Rightarrow> P v"
  have len: "length vs = ?n" by (rule wf_col_length [OF wf col])
  have lens: "\<And>p. p \<in> set (cols f) \<Longrightarrow> length (snd p) = ?n"
    using wf by (auto simp: wf_frame_def list_all_iff)
  have nk: "nrows (loc_rows f ?msk) = length ?keep"
    using length_filter_id_index [of ?msk] len by (simp add: loc_rows_def)
  have sel: "\<And>p. p \<in> set (cols f) \<Longrightarrow> select_mask ?msk (snd p) = map (\<lambda>i. snd p ! i) ?keep"
  proof -
    fix p assume "p \<in> set (cols f)"
    then have "length (snd p) = length ?msk" using lens len by simp
    from select_mask_index [OF this] lens [OF \<open>p \<in> set (cols f)\<close>]
    show "select_mask ?msk (snd p) = map (\<lambda>i. snd p ! i) ?keep" by simp
  qed
  have "rows_of (loc_rows f ?msk)
      = map (\<lambda>j. map (\<lambda>p. (fst p, select_mask ?msk (snd p) ! j)) (cols f)) [0..<length ?keep]"
    unfolding rows_of_def nk by (simp add: loc_rows_def comp_def)
  also have "\<dots> = map (\<lambda>j. ?row (?keep ! j)) [0..<length ?keep]"
    by (rule map_cong [OF refl]) (simp add: sel)
  also have "\<dots> = map ?row ?keep" by (rule map_nth_upt)
  also have "?keep = filter (?Q \<circ> ?row) [0..<?n]"
  proof (rule filter_cong [OF refl])
    fix i assume "i \<in> set [0..<?n]"
    then have "i < length vs" using len by simp
    then show "?msk ! i = (?Q \<circ> ?row) i"
      using col by (simp add: map_of_row get_col_Inr_iff)
  qed
  also have "map ?row (filter (?Q \<circ> ?row) [0..<?n]) = filter ?Q (rows_of f)"
    by (simp add: rows_of_def filter_map)
  finally show ?thesis .
qed

lemma filter_returns:
  assumes "get_col (s ! df) tc = Inr vs" "Str c \<in> set vs" "Str t \<in> set vs"
  shows "filter_by_treatment s df tc t c
       = (s @ [loc_rows (s ! df) (map (\<lambda>v. v = Str t \<or> v = Str c) vs)], Inr (length s))"
  using assms by (simp add: filter_by_treatment_def set_unique_vals new_frame_def)

lemma get_col_loc_rows:
  "get_col f tc = Inr vs \<Longrightarrow> get_col (loc_rows f (map P vs)) tc = Inr (filter P vs)"
  by (simp add: get_col_Inr_iff loc_rows_def map_of_select select_mask_map)

lemma names_loc_rows: "map fst (cols (loc_rows f msk)) = map fst (cols f)"
  by (simp add: loc_rows_def comp_def)

lemma create_flag_returns:
  assumes col: "get_col (s ! df) tc = Inr vs"
    and c: "Str c \<in> set vs" and t: "Str t \<in> set vs"
    and two: "set vs \<subseteq> {Str t, Str c}"
    and len: "length vs = nrows (s ! df)"
  shows "create_treatment_flag s df tc t c
       = (s @ [(s ! df)\<lparr>cols := AList.update TREATMENT_FEATURE
                  (map (\<lambda>v. if v = Str t then Num 1 else Num 0) vs) (cols (s ! df))\<rparr>],
          Inr (length s))"
  using col c t two_group_count [OF two] len
  by (simp add: create_treatment_flag_def copy_frame_def new_frame_def
      get_unique_treatments_def set_unique_vals Let_def assign_col_def)

lemma fit_one_via:
  assumes "filter_by_treatment s df tc t c = (s1, Inr r1)"
    and "create_treatment_flag s1 r1 tc t c = (s2, Inr r2)"
    and "s2 ! r2 = G"
  shows "snd (fit_one s df learner tc c t) =
            (case learner G of Inl e \<Rightarrow> Inl e
             | Inr (learner_fcn, scored, learner_log) \<Rightarrow> Inr (learner_fcn, learner_log))"
  using assms by (simp add: fit_one_def split: sum.splits prod.splits)

text \<open>
  Claim C9. When the treatment column holds both the requested treatment label and the
  control label, the filter returns a new frame with the same columns whose rows are
  exactly the rows of the input whose treatment-column value is the treatment label or the
  control label, in their original order; and the outcome of the per-treatment fit
  is the outcome of the learner on that frame with the flag column set, so the learner
  sees the rows of no other treatment group.
\<close>

theorem filter_by_treatment_two_groups:
  assumes wf: "wf_frame (s ! df)"
    and col: "get_col (s ! df) treatment_col = Inr vs"
    and c: "Str control_name \<in> set vs" and t: "Str treatment_name \<in> set vs"
  shows "\<exists>F G.
      filter_by_treatment s df treatment_col treatment_name control_name
        = (s @ [F], Inr (length s))
    \<and> map fst (cols F) = map fst (cols (s ! df))
    \<and> rows_of F =
        filter (\<lambda>row. map_of row treatment_col = Some (Str treatment_name)
                    \<or> map_of row treatment_col = Some (Str control_name))
          (rows_of (s ! df))
    \<and> nrows G = nrows F
    \<and> (\<forall>n. n \<noteq> TREATMENT_FEATURE \<longrightarrow> get_col G n = get_col F n)
    \<and> (\<forall>learner.
          snd (fit_one s df learner treatment_col control_name treatment_name) =
            (case learner G of Inl e \<Rightarrow> Inl e
             | Inr (learner_fcn, scored, learner_log) \<Rightarrow> Inr (learner_fcn, learner_log)))"
proof -
  let ?P = "\<lambda>v. v = Str treatment_name \<or> v = Str control_name"
  let ?F = "loc_rows (s ! df) (map ?P vs)"
  let ?flags = "map (\<lambda>v. if v = Str treatment_name then Num 1 else Num 0) (filter ?P vs)"
  let ?G = "?F\<lparr>cols := AList.update TREATMENT_FEATURE ?flags (cols ?F)\<rparr>"
  let ?s1 = "s @ [?F]"
  have run: "filter_by_treatment s df treatment_col treatment_name control_name
        = (?s1, Inr (length s))"
    by (rule filter_returns [OF col c t])
  have names: "map fst (cols ?F) = map fst (cols (s ! df))" by (rule names_loc_rows)
  have "rows_of ?F = filter (\<lambda>row. case map_of row treatment_col of None \<Rightarrow> False
                                    | Some v \<Rightarrow> ?P v) (rows_of (s ! df))"
    by (rule rows_of_loc_rows [OF wf col])
  also have "(\<lambda>row. case map_of row treatment_col of None \<Rightarrow> False | Some v \<Rightarrow> ?P v)
      = (\<lambda>row. map_of row treatment_col = Some (Str treatment_name)
                    \<or> map_of row treatment_col = Some (Str control_name))"
    by (auto split: option.splits)
  finally have rows: "rows_of ?F =
        filter (\<lambda>row. map_of row treatment_col = Some (Str treatment_name)
                    \<or> map_of row treatment_col = Some (Str control_name))
          (rows_of (s ! df))" .
  have colF: "get_col (?s1 ! length s) treatment_col = Inr (filter ?P vs)"
    using get_col_loc_rows [OF col, of ?P] by simp
  have nF: "length (filter ?P vs) = nrows (?s1 ! length s)"
    by (simp add: loc_rows_def length_filter_id_map)
  have flag: "create_treatment_flag ?s1 (length s) treatment_col treatment_name control_name
      = (?s1 @ [?G], Inr (length ?s1))"
    using create_flag_returns [OF colF _ _ _ nF] c t by auto
  have fit: "\<forall>learner.
          snd (fit_one s df learner treatment_col control_name treatment_name) =
            (case learner ?G of Inl e \<Rightarrow> Inl e
             | Inr (learner_fcn, scored, learner_log) \<Rightarrow> Inr (learner_fcn, learner_log))"
    using fit_one_via [OF run flag nth_append_length] by blast
  have others: "\<forall>n. n \<noteq> TREATMENT_FEATURE \<longrightarrow> get_col ?G n = get_col ?F n"
    by (simp add: get_col_def AList.update_conv')
  have nG: "nrows ?G = nrows ?F" by simp
  show ?thesis
    apply (rule exI [of _ ?F])
    apply (rule exI [of _ ?G])
    apply (insert run names rows nG others fit)
    apply (intro conjI)
    apply assumption+
    done
qed

theorem filter_by_treatment_two_groups_witness:
  "wf_frame ([ex_abc] ! 0)
   \<and> get_col ([ex_abc] ! 0) ''treatment'' = Inr [Str ''A'', Str ''B'', Str ''control'']
   \<and> Str ''control'' \<in> set [Str ''A'', Str ''B'', Str ''control'']
   \<and> Str ''A'' \<in> set [Str ''A'', Str ''B'', Str ''control'']
   \<and> (\<exists>F. filter_by_treatment [ex_abc] 0 ''treatment'' ''A'' ''control'' = ([ex_abc] @ [F], Inr 1)
        \<and> map fst (cols F) = [''feature'', ''treatment'']
        \<and> rows_of F = [[(''feature'', Num 1), (''treatment'', Str ''A'')],
                        [(''feature'', Num 3), (''treatment'', Str ''control'')]]
        \<and> snd (fit_one [ex_abc] 0 counting_learner ''treatment'' ''control'' ''A'')
            = Inr (ones_or_zeros_model, nrows F))"
proof -
  let ?vs = "[Str ''A'', Str ''B'', Str ''control'']"
  have h1: "wf_frame ([ex_abc] ! 0)" by (simp add: wf_frame_def ex_abc_def)
  have h2: "get_col ([ex_abc] ! 0) ''treatment'' = Inr ?vs"
    by (simp add: ex_abc_def get_col_def)
  have h3: "Str ''control'' \<in> set ?vs" by simp
  have h4: "Str ''A'' \<in> set ?vs" by simp
  have rows: "rows_of ([ex_abc] ! 0) =
      [[(''feature'', Num 1), (''treatment'', Str ''A'')],
       [(''feature'', Num 4), (''treatment'', Str ''B'')],
       [(''feature'', Num 3), (''treatment'', Str ''control'')]]"
    by (simp add: rows_of_def ex_abc_def upt_rec)
  have names: "map fst (cols ([ex_abc] ! 0)) = [''feature'', ''treatment'']"
    by (simp add: ex_abc_def)
  from filter_by_treatment_two_groups [OF h1 h2 h3 h4] obtain F G where
    r: "filter_by_treatment [ex_abc] 0 ''treatment'' ''A'' ''control''
          = ([ex_abc] @ [F], Inr (length [ex_abc]))"
    and n: "map fst (cols F) = map fst (cols ([ex_abc] ! 0))"
    and w: "rows_of F =
        filter (\<lambda>row. map_of row ''treatment'' = Some (Str ''A'')
                    \<or> map_of row ''treatment'' = Some (Str ''control''))
          (rows_of ([ex_abc] ! 0))"
    and g: "nrows G = nrows F"
    and l: "\<forall>learner :: (predictor, nat) learner.
          snd (fit_one [ex_abc] 0 learner ''treatment'' ''control'' ''A'') =
            (case learner G of Inl e \<Rightarrow> Inl e
             | Inr (learner_fcn, scored, learner_log) \<Rightarrow> Inr (learner_fcn, learner_log))"
    by blast
  have r': "filter_by_treatment [ex_abc] 0 ''treatment'' ''A'' ''control'' = ([ex_abc] @ [F], Inr 1)"
    using r by simp
  have n': "map fst (cols F) = [''feature'', ''treatment'']" using n names by simp
  have w': "rows_of F = [[(''feature'', Num 1), (''treatment'', Str ''A'')],
                        [(''feature'', Num 3), (''treatment'', Str ''control'')]]"
    unfolding w rows by simp
  have l': "snd (fit_one [ex_abc] 0 counting_learner ''treatment'' ''control'' ''A'')
            = Inr (ones_or_zeros_model, nrows F)"
    using l [rule_format, of counting_learner] g by (simp add: counting_learner_def)
  show ?thesis
    apply (insert h1 h2 h3 h4 r' n' w' l')
    apply (intro conjI exI [of _ F])
    apply assumption+
    done
qed

subsection \<open>Column names\<close>

lemma uplift_col_inj: "uplift_col t = uplift_col t' \<longleftrightarrow> t = t'"
  by (simp add: uplift_col_def)

lemma on_treatment_col_inj: "on_treatment_col t pc = on_treatment_col t' pc \<longleftrightarrow> t = t'"
  by (simp add: on_treatment_col_def)

lemma on_control_col_inj: "on_control_col t pc = on_control_col t' pc \<longleftrightarrow> t = t'"
  by (simp add: on_control_col_def)

lemma on_treatment_neq_on_control: "on_treatment_col t pc \<noteq> on_control_col t' pc'"
proof
  assume "on_treatment_col t pc = on_control_col t' pc'"
  then have "rev (on_treatment_col t pc) = rev (on_control_col t' pc')" by simp
  then show False by (simp add: on_treatment_col_def on_control_col_def)
qed

lemma on_treatment_neq_uplift: "on_treatment_col t pc \<noteq> uplift_col t'"
proof
  assume "on_treatment_col t pc = uplift_col t'"
  then have "rev (on_treatment_col t pc) = rev (uplift_col t')" by simp
  then show False by (simp add: on_treatment_col_def uplift_col_def)
qed

lemma on_control_neq_uplift: "on_control_col t pc \<noteq> uplift_col t'"
proof
  assume "on_control_col t pc = uplift_col t'"
  then have "rev (on_control_col t pc) = rev (uplift_col t')" by simp
  then show False by (simp add: on_control_col_def uplift_col_def)
qed

lemma col_names_neq_fixed:
  "on_treatment_col t pc \<noteq> TREATMENT_FEATURE" "on_control_col t pc \<noteq> TREATMENT_FEATURE"
  "uplift_col t \<noteq> TREATMENT_FEATURE"
  "on_treatment_col t pc \<noteq> ''uplift''" "on_control_col t pc \<noteq> ''uplift''"
  "uplift_col t \<noteq> ''uplift''"
  "on_treatment_col t pc \<noteq> ''suggested_treatment''"
  "on_control_col t pc \<noteq> ''suggested_treatment''"
  "uplift_col t \<noteq> ''suggested_treatment''"
  "TREATMENT_FEATURE \<noteq> ''uplift''" "TREATMENT_FEATURE \<noteq> ''suggested_treatment''"
  by (simp_all add: on_treatment_col_def on_control_col_def uplift_col_def
      TREATMENT_FEATURE_def)

subsection \<open>The simulation loop\<close>

lemma predict_InrD:
  assumes "sd < length s" and "predict_by_treatment_flag s sd fcn b pc = (s1, Inr a)"
  shows "s1 = s[sd := without_flag (s ! sd)]"
proof (cases "fcn (with_flag (s ! sd) b)")
  case (Inl e)
  from predict_raises [where learner_fcn = fcn and s = s and df = sd and b = b, OF assms(1) Inl] assms(2) show ?thesis by simp
next
  case (Inr pdf)
  from predict_returns [where learner_fcn = fcn and s = s and df = sd and b = b, OF assms(1) Inr] assms(2) show ?thesis by simp
qed

lemma score_treatment_InrD:
  assumes sd: "sd < length s"
    and run: "score_treatment s sd learners pc t = (s', Inr u)"
  shows "\<exists>a b d F. u = uplift_col t \<and> s' = s[sd := F] \<and> nrows F = nrows (s ! sd)
     \<and> length a = nrows (s ! sd) \<and> length b = nrows (s ! sd) \<and> length d = nrows (s ! sd)
     \<and> sub_cells a b = Inr d
     \<and> map_of (cols F) = (map_of (cols (s ! sd)))
          (TREATMENT_FEATURE := None, on_treatment_col t pc \<mapsto> a,
           on_control_col t pc \<mapsto> b, uplift_col t \<mapsto> d)"
proof -
  from run obtain fcn where l: "map_of learners t = Some fcn"
    by (auto simp: score_treatment_def split: option.splits)
  obtain s1 r1 where p1: "predict_by_treatment_flag s sd fcn True pc = (s1, r1)"
    by (cases "predict_by_treatment_flag s sd fcn True pc")
  from run l p1 obtain a where r1: "r1 = Inr a"
    by (cases r1) (auto simp: score_treatment_def)
  have s1: "s1 = s[sd := without_flag (s ! sd)]"
    using predict_InrD [OF sd] p1 r1 by simp
  let ?f1 = "without_flag (s ! sd)"
  have s1sd: "s1 ! sd = ?f1" using s1 sd by simp
  obtain f2 where a2: "assign_col ?f1 (on_treatment_col t pc) a = Inr f2"
    using run l p1 r1 s1sd
    by (cases "assign_col ?f1 (on_treatment_col t pc) a") (auto simp: score_treatment_def)
  have la: "length a = nrows (s ! sd)"
    and f2: "f2 = ?f1\<lparr>cols := AList.update (on_treatment_col t pc) a (cols ?f1)\<rparr>"
    using a2 by (auto simp: assign_col_def without_flag_def split: if_splits)
  let ?s2 = "s1[sd := f2]"
  have sd2: "sd < length ?s2" using s1 sd by simp
  have s2sd: "?s2 ! sd = f2" using s1 sd by simp
  obtain s3 r3 where p3: "predict_by_treatment_flag ?s2 sd fcn False pc = (s3, r3)"
    by (cases "predict_by_treatment_flag ?s2 sd fcn False pc")
  from run l p1 r1 s1sd a2 p3 obtain b where r3: "r3 = Inr b"
    by (cases r3) (auto simp: score_treatment_def)
  have s3: "s3 = ?s2[sd := without_flag f2]"
    using predict_InrD [OF sd2] p3 r3 s2sd by simp
  let ?f3 = "without_flag f2"
  have s3sd: "s3 ! sd = ?f3" using s3 s1 sd by simp
  obtain f4 where a4: "assign_col ?f3 (on_control_col t pc) b = Inr f4"
    using run l p1 r1 s1sd a2 p3 r3 s3sd
    by (cases "assign_col ?f3 (on_control_col t pc) b") (auto simp: score_treatment_def)
  have lb: "length b = nrows (s ! sd)"
    and f4: "f4 = ?f3\<lparr>cols := AList.update (on_control_col t pc) b (cols ?f3)\<rparr>"
    using a4 f2 by (auto simp: assign_col_def without_flag_def split: if_splits)
  have m4: "map_of (cols f4) = (map_of (cols (s ! sd)))
          (TREATMENT_FEATURE := None, on_treatment_col t pc \<mapsto> a,
           on_control_col t pc \<mapsto> b)"
    using col_names_neq_fixed(1) [of t pc]
    by (auto simp: f4 f2 without_flag_def AList.update_conv' AList.delete_conv' fun_eq_iff)
  have g1: "get_col f4 (on_treatment_col t pc) = Inr a"
    using on_treatment_neq_on_control [of t pc t pc] by (simp add: get_col_def m4)
  have g2: "get_col f4 (on_control_col t pc) = Inr b"
    by (simp add: get_col_def m4)
  from run l p1 r1 s1sd a2 p3 r3 s3sd a4 g1 g2 obtain d where sb: "sub_cells a b = Inr d"
    by (cases "sub_cells a b") (auto simp: score_treatment_def)
  from run l p1 r1 s1sd a2 p3 r3 s3sd a4 g1 g2 sb obtain f5
    where a5: "assign_col f4 (uplift_col t) d = Inr f5"
    by (cases "assign_col f4 (uplift_col t) d") (auto simp: score_treatment_def)
  have n4: "nrows f4 = nrows (s ! sd)" by (simp add: f4 f2 without_flag_def)
  have ld: "length d = nrows (s ! sd)"
    and f5: "f5 = f4\<lparr>cols := AList.update (uplift_col t) d (cols f4)\<rparr>"
    using a5 n4 by (auto simp: assign_col_def split: if_splits)
  have fin: "s' = s3[sd := f5]" and u: "u = uplift_col t"
    using run l p1 r1 s1sd a2 p3 r3 s3sd a4 g1 g2 sb a5 by (auto simp: score_treatment_def)
  have "s' = s[sd := f5]" using fin s3 s1 by simp
  moreover have "nrows f5 = nrows (s ! sd)" using f5 n4 by simp
  moreover have "map_of (cols f5) = (map_of (cols (s ! sd)))
          (TREATMENT_FEATURE := None, on_treatment_col t pc \<mapsto> a,
           on_control_col t pc \<mapsto> b, uplift_col t \<mapsto> d)"
    by (simp add: f5 AList.update_conv' m4)
  ultimately show ?thesis using u la lb ld sb by blast
qed

lemma simulate_loop_InrD:
  assumes "sd < length s"
    and "simulate_loop s sd learners pc ucols ts = (s', Inr ucols')"
  shows "\<exists>F. s' = s[sd := F] \<and> ucols' = ucols @ map uplift_col ts
     \<and> nrows F = nrows (s ! sd)
     \<and> map_of (cols F) TREATMENT_FEATURE
          = (if ts = [] then map_of (cols (s ! sd)) TREATMENT_FEATURE else None)
     \<and> (\<forall>k. k \<noteq> TREATMENT_FEATURE \<longrightarrow>
            (\<forall>t\<in>set ts. k \<noteq> on_treatment_col t pc \<and> k \<noteq> on_control_col t pc
                \<and> k \<noteq> uplift_col t) \<longrightarrow>
            map_of (cols F) k = map_of (cols (s ! sd)) k)
     \<and> (\<forall>t\<in>set ts. \<exists>a b d.
            map_of (cols F) (on_treatment_col t pc) = Some a
          \<and> map_of (cols F) (on_control_col t pc) = Some b
          \<and> map_of (cols F) (uplift_col t) = Some d
          \<and> sub_cells a b = Inr d \<and> length d = nrows F)"
  using assms
proof (induction ts arbitrary: s ucols)
  case Nil
  then show ?case by (intro exI [of _ "s ! sd"]) simp
next
  case (Cons t ts)
  obtain s1 r1 where st: "score_treatment s sd learners pc t = (s1, r1)"
    by (cases "score_treatment s sd learners pc t")
  from Cons.prems(2) st obtain u where r1: "r1 = Inr u" by (cases r1) auto
  from score_treatment_InrD [OF Cons.prems(1) st [unfolded r1]]
  obtain a b d F1 where u: "u = uplift_col t" and s1: "s1 = s[sd := F1]"
    and n1: "nrows F1 = nrows (s ! sd)" and ld: "length d = nrows (s ! sd)"
    and sb: "sub_cells a b = Inr d"
    and m1: "map_of (cols F1) = (map_of (cols (s ! sd)))
          (TREATMENT_FEATURE := None, on_treatment_col t pc \<mapsto> a,
           on_control_col t pc \<mapsto> b, uplift_col t \<mapsto> d)"
    by blast
  have sd1: "sd < length s1" using s1 Cons.prems(1) by simp
  have s1sd: "s1 ! sd = F1" using s1 Cons.prems(1) by simp
  have rest: "simulate_loop s1 sd learners pc (ucols @ [u]) ts = (s', Inr ucols')"
    using Cons.prems(2) st r1 by simp
  from Cons.IH [OF sd1 rest] obtain F where
    s': "s' = s1[sd := F]" and uc: "ucols' = (ucols @ [u]) @ map uplift_col ts"
    and n: "nrows F = nrows (s1 ! sd)"
    and tf: "map_of (cols F) TREATMENT_FEATURE
          = (if ts = [] then map_of (cols (s1 ! sd)) TREATMENT_FEATURE else None)"
    and keep: "\<forall>k. k \<noteq> TREATMENT_FEATURE \<longrightarrow>
            (\<forall>t\<in>set ts. k \<noteq> on_treatment_col t pc \<and> k \<noteq> on_control_col t pc
                \<and> k \<noteq> uplift_col t) \<longrightarrow>
            map_of (cols F) k = map_of (cols (s1 ! sd)) k"
    and sc: "\<forall>t\<in>set ts. \<exists>a b d.
            map_of (cols F) (on_treatment_col t pc) = Some a
          \<and> map_of (cols F) (on_control_col t pc) = Some b
          \<and> map_of (cols F) (uplift_col t) = Some d
          \<and> sub_cells a b = Inr d \<and> length d = nrows F"
    by blast
  have c1: "s' = s[sd := F]" using s' s1 by simp
  have c2: "ucols' = ucols @ map uplift_col (t # ts)" using uc u by simp
  have c3: "nrows F = nrows (s ! sd)" using n s1sd n1 by simp
  have tf1: "map_of (cols F1) TREATMENT_FEATURE = None"
    using col_names_neq_fixed(1,2) [of t pc] col_names_neq_fixed(3) [of t] by (simp add: m1)
  have c4: "map_of (cols F) TREATMENT_FEATURE
          = (if t # ts = [] then map_of (cols (s ! sd)) TREATMENT_FEATURE else None)"
    using tf s1sd tf1 by simp
  have c5: "\<forall>k. k \<noteq> TREATMENT_FEATURE \<longrightarrow>
            (\<forall>t\<in>set (t # ts). k \<noteq> on_treatment_col t pc \<and> k \<noteq> on_control_col t pc
                \<and> k \<noteq> uplift_col t) \<longrightarrow>
            map_of (cols F) k = map_of (cols (s ! sd)) k"
    using keep s1sd by (simp add: m1)
  have c6: "\<forall>t'\<in>set (t # ts). \<exists>a b d.
            map_of (cols F) (on_treatment_col t' pc) = Some a
          \<and> map_of (cols F) (on_control_col t' pc) = Some b
          \<and> map_of (cols F) (uplift_col t') = Some d
          \<and> sub_cells a b = Inr d \<and> length d = nrows F"
  proof
    fix t' assume t': "t' \<in> set (t # ts)"
    show "\<exists>a b d. map_of (cols F) (on_treatment_col t' pc) = Some a
          \<and> map_of (cols F) (on_control_col t' pc) = Some b
          \<and> map_of (cols F) (uplift_col t') = Some d
          \<and> sub_cells a b = Inr d \<and> length d = nrows F"
    proof (cases "t' \<in> set ts")
      case True
      with sc show ?thesis by blast
    next
      case False
      with t' have tt: "t' = t" by simp
      have nts: "\<forall>x\<in>set ts. x \<noteq> t" using False tt by auto
      have "map_of (cols F) (on_treatment_col t pc) = map_of (cols F1) (on_treatment_col t pc)"
        using keep [rule_format, of "on_treatment_col t pc"] nts s1sd
          col_names_neq_fixed(1) [of t pc]
        by (auto simp: on_treatment_col_inj on_treatment_neq_on_control on_treatment_neq_uplift)
      then have g1: "map_of (cols F) (on_treatment_col t pc) = Some a"
        using on_treatment_neq_on_control [of t pc t pc] on_treatment_neq_uplift [of t pc t]
        by (simp add: m1)
      have "map_of (cols F) (on_control_col t pc) = map_of (cols F1) (on_control_col t pc)"
        using keep [rule_format, of "on_control_col t pc"] nts s1sd
          col_names_neq_fixed(2) [of t pc]
          on_treatment_neq_on_control [of _ pc t pc, symmetric]
        by (auto simp: on_control_col_inj on_control_neq_uplift)
      then have g2: "map_of (cols F) (on_control_col t pc) = Some b"
        using on_control_neq_uplift [of t pc t] by (simp add: m1)
      have "map_of (cols F) (uplift_col t) = map_of (cols F1) (uplift_col t)"
        using keep [rule_format, of "uplift_col t"] nts s1sd
          col_names_neq_fixed(3) [of t]
          on_treatment_neq_uplift [of _ pc t, symmetric]
          on_control_neq_uplift [of _ pc t, symmetric]
        by (auto simp: uplift_col_inj)
      then have g3: "map_of (cols F) (uplift_col t) = Some d" by (simp add: m1)
      from g1 g2 g3 sb ld c3 tt show ?thesis by simp
    qed
  qed
  from c1 c2 c3 c4 c5 c6 show ?case by blast
qed

subsection \<open>Rows, maxima and the removal of the suffix\<close>

lemma nums_map_Num: "nums (map Num xs) = Inr xs"
  by (induction xs) auto

lemma nums_length: "nums vs = Inr xs \<Longrightarrow> length xs = length vs"
  by (induction vs arbitrary: xs rule: nums.induct) (auto split: sum.splits)

lemma sub_cells_nums:
  "sub_cells a b = Inr d \<Longrightarrow>
   \<exists>xs ys. nums a = Inr xs \<and> nums b = Inr ys \<and> nums d = Inr (map2 (-) xs ys)
     \<and> length xs = length d \<and> length ys = length d"
proof (induction a b arbitrary: d rule: sub_cells.induct)
  case (1 x as y bs)
  from "1.prems" obtain ds where ds: "sub_cells as bs = Inr ds" and d: "d = Num (x - y) # ds"
    by (auto split: sum.splits)
  from "1.IH" [OF ds] obtain xs ys where "nums as = Inr xs" "nums bs = Inr ys"
    "nums ds = Inr (map2 (-) xs ys)" "length xs = length ds" "length ys = length ds"
    by blast
  with d show ?case by simp
qed simp_all

lemma num_col_cong: "map_of (cols f) n = map_of (cols g) n \<Longrightarrow> num_col f n = num_col g n"
  by (simp add: num_col_def get_col_def)

lemma select_num_cols_InrD:
  "select_num_cols f ns = Inr ups \<Longrightarrow>
   ups = map (\<lambda>n. the (num_col f n)) ns \<and> (\<forall>n\<in>set ns. num_col f n \<noteq> None)"
  by (induction ns arbitrary: ups) (auto simp: num_col_def split: sum.splits)

lemma list_max_Max: "xs \<noteq> [] \<Longrightarrow> list_max xs = Max (set xs)"
proof (cases xs)
  case Nil
  assume "xs \<noteq> []"
  with Nil show ?thesis by simp
next
  case (Cons a list)
  have "fold max list a = Max (set (a # list))" by (rule Max.set_eq_fold [symmetric])
  then show ?thesis by (simp add: list_max_def Cons)
qed

lemma argmax_scan_first:
  assumes "length ps = i" "best < i" "ps ! best = bv"
    and "\<forall>j<i. ps ! j \<le> bv" and "\<forall>j<best. ps ! j < bv"
  shows "argmax_scan best bv i ys < length (ps @ ys)
     \<and> (\<forall>j<length (ps @ ys). (ps @ ys) ! j \<le> (ps @ ys) ! argmax_scan best bv i ys)
     \<and> (\<forall>j<argmax_scan best bv i ys. (ps @ ys) ! j < (ps @ ys) ! argmax_scan best bv i ys)"
  using assms
proof (induction ys arbitrary: best bv i ps)
  case Nil
  then show ?case by simp
next
  case (Cons y ys)
  show ?case
  proof (cases "bv < y")
    case True
    have "argmax_scan i y (Suc i) ys < length ((ps @ [y]) @ ys)
     \<and> (\<forall>j<length ((ps @ [y]) @ ys). ((ps @ [y]) @ ys) ! j \<le> ((ps @ [y]) @ ys) ! argmax_scan i y (Suc i) ys)
     \<and> (\<forall>j<argmax_scan i y (Suc i) ys. ((ps @ [y]) @ ys) ! j < ((ps @ [y]) @ ys) ! argmax_scan i y (Suc i) ys)"
    proof (rule Cons.IH)
      show "length (ps @ [y]) = Suc i" using Cons.prems(1) by simp
      show "i < Suc i" by simp
      show "(ps @ [y]) ! i = y" using Cons.prems(1) by (simp add: nth_append)
      show "\<forall>j<Suc i. (ps @ [y]) ! j \<le> y"
        using Cons.prems(1,4) True by (auto simp: nth_append less_Suc_eq)
      show "\<forall>j<i. (ps @ [y]) ! j < y"
        using Cons.prems(1,4) True by (auto simp: nth_append)
    qed
    with True show ?thesis by simp
  next
    case False
    have "argmax_scan best bv (Suc i) ys < length ((ps @ [y]) @ ys)
     \<and> (\<forall>j<length ((ps @ [y]) @ ys). ((ps @ [y]) @ ys) ! j \<le> ((ps @ [y]) @ ys) ! argmax_scan best bv (Suc i) ys)
     \<and> (\<forall>j<argmax_scan best bv (Suc i) ys. ((ps @ [y]) @ ys) ! j < ((ps @ [y]) @ ys) ! argmax_scan best bv (Suc i) ys)"
    proof (rule Cons.IH)
      show "length (ps @ [y]) = Suc i" using Cons.prems(1) by simp
      show "best < Suc i" using Cons.prems(2) by simp
      show "(ps @ [y]) ! best = bv" using Cons.prems(1,2,3) by (simp add: nth_append)
      show "\<forall>j<Suc i. (ps @ [y]) ! j \<le> bv"
        using Cons.prems(1,4) False by (auto simp: nth_append less_Suc_eq)
      show "\<forall>j<best. (ps @ [y]) ! j < bv"
        using Cons.prems(1,2,5) by (auto simp: nth_append)
    qed
    with False show ?thesis by simp
  qed
qed

lemma argmax_first:
  assumes "xs \<noteq> []"
  shows "argmax xs < length xs
     \<and> (\<forall>j<length xs. xs ! j \<le> xs ! argmax xs)
     \<and> (\<forall>j<argmax xs. xs ! j < xs ! argmax xs)"
proof -
  from assms obtain x rest where xs: "xs = x # rest" by (cases xs) auto
  have "argmax_scan 0 x 1 rest < length ([x] @ rest)
     \<and> (\<forall>j<length ([x] @ rest). ([x] @ rest) ! j \<le> ([x] @ rest) ! argmax_scan 0 x 1 rest)
     \<and> (\<forall>j<argmax_scan 0 x 1 rest. ([x] @ rest) ! j < ([x] @ rest) ! argmax_scan 0 x 1 rest)"
    by (rule argmax_scan_first) simp_all
  then show ?thesis by (simp add: xs argmax_def)
qed




subsection \<open>The scored frame\<close>

lemma row_at_uplifts:
  "row_at (map (\<lambda>t. the (num_col f (uplift_col t))) ts) i = row_uplifts f ts i"
  by (simp add: row_at_def row_uplifts_def comp_def)

lemma simulate_InrD:
  assumes run: "simulate_treatment_effect s df ts c learners pc = (s', Inr r)"
  shows "\<exists>F. ts \<noteq> [] \<and> r = length s \<and> nrows F = nrows (s ! df)
     \<and> map_of (cols F) TREATMENT_FEATURE = None
     \<and> (\<forall>k. k \<noteq> TREATMENT_FEATURE \<longrightarrow>
            (\<forall>t\<in>set ts. k \<noteq> on_treatment_col t pc \<and> k \<noteq> on_control_col t pc
                \<and> k \<noteq> uplift_col t) \<longrightarrow>
            map_of (cols F) k = map_of (cols (s ! df)) k)
     \<and> (\<forall>t\<in>set ts. \<exists>a b d.
            map_of (cols F) (on_treatment_col t pc) = Some a
          \<and> map_of (cols F) (on_control_col t pc) = Some b
          \<and> map_of (cols F) (uplift_col t) = Some d
          \<and> sub_cells a b = Inr d \<and> length d = nrows F)
     \<and> (\<forall>t\<in>set ts. num_col F (uplift_col t) \<noteq> None)
     \<and> s' = s @ [F\<lparr>cols :=
          AList.update ''suggested_treatment''
            (map (\<lambda>i. Str (str_remove ''__uplift'' (suggestion F ts c i))) [0..<nrows F])
            (AList.update ''uplift''
               (map (\<lambda>i. Num (list_max (row_uplifts F ts i))) [0..<nrows F]) (cols F))\<rparr>]"
proof -
  let ?s0 = "s @ [s ! df]" and ?sd = "length s"
  have sd: "?sd < length ?s0" by simp
  obtain s1 r1 where lp: "simulate_loop ?s0 ?sd learners pc [] ts = (s1, r1)"
    by (cases "simulate_loop ?s0 ?sd learners pc [] ts")
  note defs = simulate_treatment_effect_def copy_frame_def new_frame_def
  from run lp obtain ucols where r1: "r1 = Inr ucols"
    by (cases r1) (auto simp: defs)
  from simulate_loop_InrD [OF sd lp [unfolded r1]] obtain F where
    s1: "s1 = ?s0[?sd := F]" and uc: "ucols = map uplift_col ts"
    and n: "nrows F = nrows (s ! df)"
    and tf: "map_of (cols F) TREATMENT_FEATURE
          = (if ts = [] then map_of (cols (s ! df)) TREATMENT_FEATURE else None)"
    and keep: "\<forall>k. k \<noteq> TREATMENT_FEATURE \<longrightarrow>
            (\<forall>t\<in>set ts. k \<noteq> on_treatment_col t pc \<and> k \<noteq> on_control_col t pc
                \<and> k \<noteq> uplift_col t) \<longrightarrow>
            map_of (cols F) k = map_of (cols (s ! df)) k"
    and sc: "\<forall>t\<in>set ts. \<exists>a b d.
            map_of (cols F) (on_treatment_col t pc) = Some a
          \<and> map_of (cols F) (on_control_col t pc) = Some b
          \<and> map_of (cols F) (uplift_col t) = Some d
          \<and> sub_cells a b = Inr d \<and> length d = nrows F"
    by auto
  have s1': "s1 = s @ [F]" and s1sd: "s1 ! ?sd = F" using s1 by simp_all
  have upd: "\<And>G. s1[?sd := G] = s @ [G]" using s1' by simp
  obtain ups where sel: "select_num_cols F ucols = Inr ups"
    using run lp r1 s1sd by (cases "select_num_cols F ucols") (auto simp: defs)
  from select_num_cols_InrD [OF sel]
  have ups: "ups = map (\<lambda>t. the (num_col F (uplift_col t))) ts"
    and some: "\<forall>t\<in>set ts. num_col F (uplift_col t) \<noteq> None"
    by (simp_all add: uc comp_def)
  let ?upl = "map (\<lambda>i. list_max (row_uplifts F ts i)) [0..<nrows F]"
  have upl: "max_axis1 (nrows F) ups = ?upl"
    by (simp add: max_axis1_def ups row_at_uplifts)
  let ?f2 = "F\<lparr>cols := AList.update ''uplift'' (map Num ?upl) (cols F)\<rparr>"
  have a2: "assign_col F ''uplift'' (map Num (max_axis1 (nrows F) ups)) = Inr ?f2"
    by (simp add: assign_col_def upl)
  have g2: "get_col ?f2 ''uplift'' = Inr (map Num ?upl)"
    by (simp add: get_col_def AList.update_conv')
  have nm: "nums (map Num ?upl) = Inr ?upl" by (rule nums_map_Num)
  have "\<And>n. n \<in> set ucols \<Longrightarrow> num_col ?f2 n = num_col F n"
    using col_names_neq_fixed(6) by (intro num_col_cong) (auto simp: uc AList.update_conv')
  then have sel2: "select_num_cols ?f2 ucols = Inr ups"
    using sel
  proof (induction ucols arbitrary: ups)
    case Nil
    then show ?case by simp
  next
    case (Cons n ns)
    from Cons.prems(2) obtain vs as rest where
      "get_col F n = Inr vs" "nums vs = Inr as" "select_num_cols F ns = Inr rest"
      "ups = as # rest"
      by (auto split: sum.splits)
    moreover have "select_num_cols ?f2 ns = Inr rest"
      using Cons.IH [of rest] Cons.prems(1) \<open>select_num_cols F ns = Inr rest\<close> by simp
    moreover have "num_col ?f2 n = num_col F n" using Cons.prems(1) by simp
    ultimately show ?case
      by (auto simp: num_col_def split: sum.splits)
  qed
  have ne: "ucols \<noteq> []"
    using run lp r1 s1sd sel a2 g2 nm sel2 upl
    by (auto simp: defs split: if_splits)
  then have tsne: "ts \<noteq> []" using uc by simp
  let ?best = "idxmax_axis1 (nrows ?f2) ucols ups"
  let ?sugg = "map (\<lambda>p. if fst p \<le> 0 then c else snd p) (zip ?upl ?best)"
  have am: "argmax (row_uplifts F ts i) < length ts" for i
    using argmax_first [of "row_uplifts F ts i"] tsne by (simp add: row_uplifts_def)
  have sugg: "?sugg = map (\<lambda>i. suggestion F ts c i) [0..<nrows F]"
    by (rule nth_equalityI)
       (simp_all add: idxmax_axis1_def suggestion_def ups uc row_at_uplifts am)
  let ?f3 = "?f2\<lparr>cols := AList.update ''suggested_treatment'' (map Str ?sugg) (cols ?f2)\<rparr>"
  have a3: "assign_col ?f2 ''suggested_treatment'' (map Str ?sugg) = Inr ?f3"
    by (simp add: assign_col_def idxmax_axis1_def)
  let ?f4 = "?f3\<lparr>cols := AList.update ''suggested_treatment''
      (map (\<lambda>x. Str (str_remove ''__uplift'' x)) ?sugg) (cols ?f3)\<rparr>"
  have a4: "assign_col ?f3 ''suggested_treatment''
      (map (\<lambda>x. Str (str_remove ''__uplift'' x)) ?sugg) = Inr ?f4"
    by (simp add: assign_col_def idxmax_axis1_def)
  have fin: "s' = s @ [?f4]" and r: "r = length s"
    using run lp r1 s1sd sel a2 g2 nm sel2 ne a3 a4 upd
    by (simp_all add: defs upl Let_def)
  have f4: "?f4 = F\<lparr>cols :=
          AList.update ''suggested_treatment''
            (map (\<lambda>i. Str (str_remove ''__uplift'' (suggestion F ts c i))) [0..<nrows F])
            (AList.update ''uplift''
               (map (\<lambda>i. Num (list_max (row_uplifts F ts i))) [0..<nrows F]) (cols F))\<rparr>"
    using arg_cong [OF sugg, of "map (\<lambda>x. Str (str_remove ''__uplift'' x))"]
    by (simp add: comp_def)
  from tsne r n tf keep sc some fin [unfolded f4] show ?thesis
    by (intro exI [of _ F]) simp
qed

lemma row_uplifts_cong:
  "\<forall>t\<in>set ts. map_of (cols f) (uplift_col t) = map_of (cols g) (uplift_col t) \<Longrightarrow>
   row_uplifts f ts i = row_uplifts g ts i"
proof -
  assume eq: "\<forall>t\<in>set ts. map_of (cols f) (uplift_col t) = map_of (cols g) (uplift_col t)"
  have "num_col f (uplift_col t) = num_col g (uplift_col t)" if "t \<in> set ts" for t
    using eq that by (intro num_col_cong) blast
  then show ?thesis by (simp add: row_uplifts_def)
qed

lemma set_row_uplifts:
  "set (row_uplifts f ts i) = (\<lambda>t. the (num_col f (uplift_col t)) ! i) ` set ts"
  by (simp add: row_uplifts_def)

lemma num_col_SomeI: "map_of (cols f) n = Some vs \<Longrightarrow> nums vs = Inr xs \<Longrightarrow> num_col f n = Some xs"
  by (simp add: num_col_def get_col_def)

text \<open>The scored frame in terms of the frame the loop leaves.\<close>

lemma simulate_result:
  assumes run: "simulate_treatment_effect s df ts c learners pc = (s', Inr r)"
  shows "\<exists>R. s' = s @ [R] \<and> r = length s \<and> ts \<noteq> [] \<and> nrows R = nrows (s ! df)
     \<and> map_of (cols R) TREATMENT_FEATURE = None
     \<and> (\<forall>k. k \<noteq> TREATMENT_FEATURE \<longrightarrow> k \<noteq> ''uplift'' \<longrightarrow> k \<noteq> ''suggested_treatment'' \<longrightarrow>
            (\<forall>t\<in>set ts. k \<noteq> on_treatment_col t pc \<and> k \<noteq> on_control_col t pc
                \<and> k \<noteq> uplift_col t) \<longrightarrow>
            map_of (cols R) k = map_of (cols (s ! df)) k)
     \<and> (\<forall>t\<in>set ts. \<exists>a b d.
            map_of (cols R) (on_treatment_col t pc) = Some a
          \<and> map_of (cols R) (on_control_col t pc) = Some b
          \<and> map_of (cols R) (uplift_col t) = Some d
          \<and> sub_cells a b = Inr d \<and> length d = nrows R)
     \<and> (\<forall>t\<in>set ts. num_col R (uplift_col t) \<noteq> None)
     \<and> map_of (cols R) ''uplift''
          = Some (map (\<lambda>i. Num (list_max (row_uplifts R ts i))) [0..<nrows R])
     \<and> map_of (cols R) ''suggested_treatment''
          = Some (map (\<lambda>i. Str (str_remove ''__uplift'' (suggestion R ts c i))) [0..<nrows R])"
proof -
  from simulate_InrD [OF run] obtain F where F: "ts \<noteq> [] \<and> r = length s \<and> nrows F = nrows (s ! df)
     \<and> map_of (cols F) TREATMENT_FEATURE = None
     \<and> (\<forall>k. k \<noteq> TREATMENT_FEATURE \<longrightarrow>
            (\<forall>t\<in>set ts. k \<noteq> on_treatment_col t pc \<and> k \<noteq> on_control_col t pc
                \<and> k \<noteq> uplift_col t) \<longrightarrow>
            map_of (cols F) k = map_of (cols (s ! df)) k)
     \<and> (\<forall>t\<in>set ts. \<exists>a b d.
            map_of (cols F) (on_treatment_col t pc) = Some a
          \<and> map_of (cols F) (on_control_col t pc) = Some b
          \<and> map_of (cols F) (uplift_col t) = Some d
          \<and> sub_cells a b = Inr d \<and> length d = nrows F)
     \<and> (\<forall>t\<in>set ts. num_col F (uplift_col t) \<noteq> None)
     \<and> s' = s @ [F\<lparr>cols :=
          AList.update ''suggested_treatment''
            (map (\<lambda>i. Str (str_remove ''__uplift'' (suggestion F ts c i))) [0..<nrows F])
            (AList.update ''uplift''
               (map (\<lambda>i. Num (list_max (row_uplifts F ts i))) [0..<nrows F]) (cols F))\<rparr>]" ..
  note tsne = F [THEN conjunct1]
  note F2 = F [THEN conjunct2]
  note r = F2 [THEN conjunct1]
  note F3 = F2 [THEN conjunct2]
  note n = F3 [THEN conjunct1]
  note F4 = F3 [THEN conjunct2]
  note tf = F4 [THEN conjunct1]
  note F5 = F4 [THEN conjunct2]
  note keep = F5 [THEN conjunct1]
  note F6 = F5 [THEN conjunct2]
  note sc = F6 [THEN conjunct1]
  note F7 = F6 [THEN conjunct2]
  note some = F7 [THEN conjunct1]
  note s' = F7 [THEN conjunct2]
  define R where "R = F\<lparr>cols :=
          AList.update ''suggested_treatment''
            (map (\<lambda>i. Str (str_remove ''__uplift'' (suggestion F ts c i))) [0..<nrows F])
            (AList.update ''uplift''
               (map (\<lambda>i. Num (list_max (row_uplifts F ts i))) [0..<nrows F]) (cols F))\<rparr>"
  have m: "map_of (cols R) = (map_of (cols F))
      (''uplift'' \<mapsto> map (\<lambda>i. Num (list_max (row_uplifts F ts i))) [0..<nrows F],
       ''suggested_treatment'' \<mapsto>
          map (\<lambda>i. Str (str_remove ''__uplift'' (suggestion F ts c i))) [0..<nrows F])"
    by (simp add: R_def AList.update_conv')
  have nR: "nrows R = nrows F" by (simp add: R_def)
  have same: "map_of (cols R) k = map_of (cols F) k"
    if "k \<noteq> ''uplift''" "k \<noteq> ''suggested_treatment''" for k
    using that by (simp add: m)
  have ru: "row_uplifts R ts i = row_uplifts F ts i" for i
    by (rule row_uplifts_cong) (simp add: same col_names_neq_fixed)
  have sg: "suggestion R ts c i = suggestion F ts c i" for i
    by (simp add: suggestion_def ru)
  have c1: "s' = s @ [R]" using s' by (simp add: R_def)
  have c4: "nrows R = nrows (s ! df)" using nR n by simp
  have c5: "map_of (cols R) TREATMENT_FEATURE = None"
    using tf same [of TREATMENT_FEATURE] col_names_neq_fixed(10,11) by simp
  have c6: "\<forall>k. k \<noteq> TREATMENT_FEATURE \<longrightarrow> k \<noteq> ''uplift'' \<longrightarrow> k \<noteq> ''suggested_treatment'' \<longrightarrow>
            (\<forall>t\<in>set ts. k \<noteq> on_treatment_col t pc \<and> k \<noteq> on_control_col t pc
                \<and> k \<noteq> uplift_col t) \<longrightarrow>
            map_of (cols R) k = map_of (cols (s ! df)) k"
    using keep same by simp
  have c7: "\<forall>t\<in>set ts. \<exists>a b d.
            map_of (cols R) (on_treatment_col t pc) = Some a
          \<and> map_of (cols R) (on_control_col t pc) = Some b
          \<and> map_of (cols R) (uplift_col t) = Some d
          \<and> sub_cells a b = Inr d \<and> length d = nrows R"
    using sc by (simp add: same col_names_neq_fixed nR)
  have c8: "\<forall>t\<in>set ts. num_col R (uplift_col t) \<noteq> None"
  proof
    fix t assume "t \<in> set ts"
    have "num_col R (uplift_col t) = num_col F (uplift_col t)"
      by (rule num_col_cong) (simp add: same col_names_neq_fixed)
    with some \<open>t \<in> set ts\<close> show "num_col R (uplift_col t) \<noteq> None" by simp
  qed
  have c9: "map_of (cols R) ''uplift''
          = Some (map (\<lambda>i. Num (list_max (row_uplifts R ts i))) [0..<nrows R])"
    by (simp add: m ru nR)
  have c10: "map_of (cols R) ''suggested_treatment''
          = Some (map (\<lambda>i. Str (str_remove ''__uplift'' (suggestion R ts c i))) [0..<nrows R])"
    by (simp add: m sg nR)
  show ?thesis
    apply (insert c1 r tsne c4 c5 c6 c7 c8 c9 c10)
    apply (intro exI [of _ R] conjI)
    apply assumption+
    done
qed

lemma simulate_example:
  "simulate_treatment_effect [ex_sim] 0 [''A'', ''B''] ''control'' ex_learners ''prediction''
     = ([ex_sim, ex_scored], Inr 1)"
  by (simp add: simulate_treatment_effect_def copy_frame_def new_frame_def
      score_treatment_def ex_learners_def predict_by_treatment_flag_def
      assign_col_def flag_const_def ex_sim_def table_predictor_def get_col_def drop_col_def
      TREATMENT_FEATURE_def on_treatment_col_def on_control_col_def uplift_col_def
      max_axis1_def idxmax_axis1_def row_at_def list_max_def argmax_def ex_scored_def
      numeral_eq_Suc upt_rec)

lemma ex_scored_facts:
  "nrows ex_scored = 4"
  "num_col ex_scored (on_treatment_col ''A'' ''prediction'') = Some [0.3, 0.3, 0.0, 1.0]"
  "num_col ex_scored (on_control_col ''A'' ''prediction'') = Some [0.2, 0.5, 0.3, 0.0]"
  "num_col ex_scored (uplift_col ''A'') = Some [0.1, - 0.2, - 0.3, 1.0]"
  "num_col ex_scored (uplift_col ''B'') = Some [- 0.4, 0.2, - 1.0, 0.0]"
  "num_col ex_scored ''uplift'' = Some [0.1, 0.2, - 0.3, 1.0]"
  "get_col ex_scored ''suggested_treatment''
     = Inr [Str ''treatment_A'', Str ''treatment_B'', Str ''control'', Str ''treatment_A'']"
  by (simp_all add: ex_scored_def num_col_def get_col_def on_treatment_col_def
      on_control_col_def uplift_col_def)

text \<open>
  Claim C2. When \<^verbatim>\<open>_simulate_treatment_effect\<close> returns, the scored frame is a new
  frame with the rows of the input; its columns are those of the input (without the flag
  column), three per treatment label, named
  \<^verbatim>\<open>treatment_<L>__<prediction_column>_on_treatment\<close>,
  \<^verbatim>\<open>treatment_<L>__<prediction_column>_on_control\<close> and
  \<^verbatim>\<open>treatment_<L>__uplift\<close>, and the two summary columns; for every label the
  uplift column is the on-treatment column minus the on-control column, row by row; and
  the column \<^verbatim>\<open>uplift\<close> is, row by row, the maximum of the uplift columns of
  all labels.
\<close>

theorem simulate_columns_and_uplift:
  assumes run: "simulate_treatment_effect s df treatments control_name learners
      prediction_column = (s', Inr r)"
  shows "\<exists>R. s' = s @ [R] \<and> r = length s \<and> nrows R = nrows (s ! df)
    \<and> fst ` set (cols R) =
        (fst ` set (cols (s ! df)) - {TREATMENT_FEATURE})
        \<union> (\<Union>t\<in>set treatments. {on_treatment_col t prediction_column,
              on_control_col t prediction_column, uplift_col t})
        \<union> {''uplift'', ''suggested_treatment''}
    \<and> (\<forall>t\<in>set treatments. \<exists>a b d.
          num_col R (on_treatment_col t prediction_column) = Some a
        \<and> num_col R (on_control_col t prediction_column) = Some b
        \<and> num_col R (uplift_col t) = Some d
        \<and> length a = nrows R \<and> length b = nrows R
        \<and> d = map2 (-) a b)
    \<and> (\<exists>u. num_col R ''uplift'' = Some u \<and> length u = nrows R
          \<and> (\<forall>i<nrows R. u ! i = Max (set (row_uplifts R treatments i))))"
proof -
  let ?pc = prediction_column and ?ts = treatments
  from simulate_result [OF run] obtain R where R: "s' = s @ [R] \<and> r = length s \<and> ?ts \<noteq> []
     \<and> nrows R = nrows (s ! df)
     \<and> map_of (cols R) TREATMENT_FEATURE = None
     \<and> (\<forall>k. k \<noteq> TREATMENT_FEATURE \<longrightarrow> k \<noteq> ''uplift'' \<longrightarrow> k \<noteq> ''suggested_treatment'' \<longrightarrow>
            (\<forall>t\<in>set ?ts. k \<noteq> on_treatment_col t ?pc \<and> k \<noteq> on_control_col t ?pc
                \<and> k \<noteq> uplift_col t) \<longrightarrow>
            map_of (cols R) k = map_of (cols (s ! df)) k)
     \<and> (\<forall>t\<in>set ?ts. \<exists>a b d.
            map_of (cols R) (on_treatment_col t ?pc) = Some a
          \<and> map_of (cols R) (on_control_col t ?pc) = Some b
          \<and> map_of (cols R) (uplift_col t) = Some d
          \<and> sub_cells a b = Inr d \<and> length d = nrows R)
     \<and> (\<forall>t\<in>set ?ts. num_col R (uplift_col t) \<noteq> None)
     \<and> map_of (cols R) ''uplift''
          = Some (map (\<lambda>i. Num (list_max (row_uplifts R ?ts i))) [0..<nrows R])
     \<and> map_of (cols R) ''suggested_treatment''
          = Some (map (\<lambda>i. Str (str_remove ''__uplift'' (suggestion R ?ts control_name i)))
               [0..<nrows R])" ..
  note s' = R [THEN conjunct1]
  note R2 = R [THEN conjunct2]
  note r = R2 [THEN conjunct1]
  note R3 = R2 [THEN conjunct2]
  note tsne = R3 [THEN conjunct1]
  note R4 = R3 [THEN conjunct2]
  note n = R4 [THEN conjunct1]
  note R5 = R4 [THEN conjunct2]
  note tf = R5 [THEN conjunct1]
  note R6 = R5 [THEN conjunct2]
  note keep = R6 [THEN conjunct1]
  note R7 = R6 [THEN conjunct2]
  note sc = R7 [THEN conjunct1]
  note R8 = R7 [THEN conjunct2]
  note up = R8 [THEN conjunct2, THEN conjunct1]
  note sg = R8 [THEN conjunct2, THEN conjunct2]
  have dom: "fst ` set (cols f) = dom (map_of (cols f))" for f :: frame
    by (simp add: dom_map_of_conv_image_fst)
  have names: "fst ` set (cols R) =
        (fst ` set (cols (s ! df)) - {TREATMENT_FEATURE})
        \<union> (\<Union>t\<in>set ?ts. {on_treatment_col t ?pc, on_control_col t ?pc, uplift_col t})
        \<union> {''uplift'', ''suggested_treatment''}"
  proof (rule set_eqI)
    fix k
    show "k \<in> fst ` set (cols R) \<longleftrightarrow>
        k \<in> (fst ` set (cols (s ! df)) - {TREATMENT_FEATURE})
        \<union> (\<Union>t\<in>set ?ts. {on_treatment_col t ?pc, on_control_col t ?pc, uplift_col t})
        \<union> {''uplift'', ''suggested_treatment''}"
    proof (cases "k = TREATMENT_FEATURE \<or> k = ''uplift'' \<or> k = ''suggested_treatment''
        \<or> (\<exists>t\<in>set ?ts. k = on_treatment_col t ?pc \<or> k = on_control_col t ?pc
              \<or> k = uplift_col t)")
      case True
      then consider "k = TREATMENT_FEATURE" | "k = ''uplift''" | "k = ''suggested_treatment''"
        | t where "t \<in> set ?ts" "k = on_treatment_col t ?pc \<or> k = on_control_col t ?pc
              \<or> k = uplift_col t"
        by blast
      then show ?thesis
      proof cases
        case 1
        have "k \<notin> dom (map_of (cols R))" using tf 1 by auto
        moreover have "k \<notin> (\<Union>t\<in>set ?ts. {on_treatment_col t ?pc, on_control_col t ?pc,
            uplift_col t})"
          using 1 col_names_neq_fixed(1,2) [of _ ?pc, symmetric]
            col_names_neq_fixed(3) [symmetric] by auto
        moreover have "k \<noteq> ''uplift''" "k \<noteq> ''suggested_treatment''"
          using 1 col_names_neq_fixed(10,11) by simp_all
        ultimately show ?thesis using 1 by (simp add: dom)
      next
        case 2
        with up show ?thesis by (auto simp: dom)
      next
        case 3
        with sg show ?thesis by (auto simp: dom)
      next
        case 4
        from sc 4(1) obtain a b d where
          "map_of (cols R) (on_treatment_col t ?pc) = Some a"
          "map_of (cols R) (on_control_col t ?pc) = Some b"
          "map_of (cols R) (uplift_col t) = Some d" by blast
        with 4(2) have "k \<in> dom (map_of (cols R))" by auto
        moreover have "k \<in> (\<Union>t\<in>set ?ts. {on_treatment_col t ?pc, on_control_col t ?pc,
            uplift_col t})" using 4 by blast
        ultimately show ?thesis by (simp add: dom)
      qed
    next
      case False
      then have "map_of (cols R) k = map_of (cols (s ! df)) k"
        using keep by blast
      then have "k \<in> dom (map_of (cols R)) \<longleftrightarrow> k \<in> dom (map_of (cols (s ! df)))"
        by (simp add: dom_def)
      with False show ?thesis by (auto simp: dom)
    qed
  qed
  have labels: "\<forall>t\<in>set ?ts. \<exists>a b d.
          num_col R (on_treatment_col t ?pc) = Some a
        \<and> num_col R (on_control_col t ?pc) = Some b
        \<and> num_col R (uplift_col t) = Some d
        \<and> length a = nrows R \<and> length b = nrows R
        \<and> d = map2 (-) a b"
  proof
    fix t assume "t \<in> set ?ts"
    with sc obtain a b d where
      a: "map_of (cols R) (on_treatment_col t ?pc) = Some a"
      and b: "map_of (cols R) (on_control_col t ?pc) = Some b"
      and d: "map_of (cols R) (uplift_col t) = Some d"
      and sb: "sub_cells a b = Inr d" and ld: "length d = nrows R" by blast
    from sub_cells_nums [OF sb] obtain xs ys where
      "nums a = Inr xs" "nums b = Inr ys" "nums d = Inr (map2 (-) xs ys)"
      "length xs = length d" "length ys = length d" by blast
    with a b d ld
    have "num_col R (on_treatment_col t ?pc) = Some xs
        \<and> num_col R (on_control_col t ?pc) = Some ys
        \<and> num_col R (uplift_col t) = Some (map2 (-) xs ys)
        \<and> length xs = nrows R \<and> length ys = nrows R
        \<and> map2 (-) xs ys = map2 (-) xs ys"
      by (simp add: num_col_SomeI)
    then show "\<exists>a b d.
          num_col R (on_treatment_col t ?pc) = Some a
        \<and> num_col R (on_control_col t ?pc) = Some b
        \<and> num_col R (uplift_col t) = Some d
        \<and> length a = nrows R \<and> length b = nrows R
        \<and> d = map2 (-) a b" by blast
  qed
  let ?u = "map (\<lambda>i. list_max (row_uplifts R ?ts i)) [0..<nrows R]"
  have "nums (map Num ?u) = Inr ?u" by (rule nums_map_Num)
  then have u1: "num_col R ''uplift'' = Some ?u"
    using up by (intro num_col_SomeI) (simp_all add: comp_def)
  have u2: "length ?u = nrows R" by simp
  have u3: "\<forall>i<nrows R. ?u ! i = Max (set (row_uplifts R ?ts i))"
    using tsne by (simp add: list_max_Max row_uplifts_def)
  have summary: "\<exists>u. num_col R ''uplift'' = Some u \<and> length u = nrows R
          \<and> (\<forall>i<nrows R. u ! i = Max (set (row_uplifts R ?ts i)))"
    using u1 u2 u3 by (intro exI [of _ ?u] conjI)
  show ?thesis
    apply (insert s' r n names labels summary)
    apply (intro exI [of _ R] conjI)
    apply assumption+
    done
qed

theorem simulate_columns_and_uplift_witness:
  "simulate_treatment_effect [ex_sim] 0 [''A'', ''B''] ''control'' ex_learners ''prediction''
     = ([ex_sim, ex_scored], Inr 1)
   \<and> (\<exists>a b d.
          num_col ex_scored (on_treatment_col ''A'' ''prediction'') = Some a
        \<and> num_col ex_scored (on_control_col ''A'' ''prediction'') = Some b
        \<and> num_col ex_scored (uplift_col ''A'') = Some d
        \<and> length a = nrows ex_scored \<and> length b = nrows ex_scored
        \<and> d = map2 (-) a b)
   \<and> (\<exists>u. num_col ex_scored ''uplift'' = Some u \<and> length u = nrows ex_scored
        \<and> u ! 0 = Max (set (row_uplifts ex_scored [''A'', ''B''] 0))
        \<and> u ! 1 = Max (set (row_uplifts ex_scored [''A'', ''B''] 1)))"
proof -
  note run = simulate_example
  from simulate_columns_and_uplift [OF run] obtain R where
    R: "[ex_sim, ex_scored] = [ex_sim] @ [R] \<and> (1::nat) = length [ex_sim]
    \<and> nrows R = nrows ([ex_sim] ! 0)
    \<and> fst ` set (cols R) =
        (fst ` set (cols ([ex_sim] ! 0)) - {TREATMENT_FEATURE})
        \<union> (\<Union>t\<in>set [''A'', ''B'']. {on_treatment_col t ''prediction'',
              on_control_col t ''prediction'', uplift_col t})
        \<union> {''uplift'', ''suggested_treatment''}
    \<and> (\<forall>t\<in>set [''A'', ''B'']. \<exists>a b d.
          num_col R (on_treatment_col t ''prediction'') = Some a
        \<and> num_col R (on_control_col t ''prediction'') = Some b
        \<and> num_col R (uplift_col t) = Some d
        \<and> length a = nrows R \<and> length b = nrows R
        \<and> d = map2 (-) a b)
    \<and> (\<exists>u. num_col R ''uplift'' = Some u \<and> length u = nrows R
          \<and> (\<forall>i<nrows R. u ! i = Max (set (row_uplifts R [''A'', ''B''] i))))" ..
  from R have eq: "R = ex_scored" by simp
  note l = R [THEN conjunct2, THEN conjunct2, THEN conjunct2, THEN conjunct2, THEN conjunct1,
      unfolded eq]
  note u = R [THEN conjunct2, THEN conjunct2, THEN conjunct2, THEN conjunct2, THEN conjunct2,
      unfolded eq]
  have la: "\<exists>a b d.
          num_col ex_scored (on_treatment_col ''A'' ''prediction'') = Some a
        \<and> num_col ex_scored (on_control_col ''A'' ''prediction'') = Some b
        \<and> num_col ex_scored (uplift_col ''A'') = Some d
        \<and> length a = nrows ex_scored \<and> length b = nrows ex_scored
        \<and> d = map2 (-) a b"
    by (rule l [rule_format, of "''A''"]) simp
  from u obtain us where us: "num_col ex_scored ''uplift'' = Some us"
    "length us = nrows ex_scored"
    "\<forall>i<nrows ex_scored. us ! i = Max (set (row_uplifts ex_scored [''A'', ''B''] i))"
    by (elim exE conjE)
  have n: "(0::nat) < nrows ex_scored" "(1::nat) < nrows ex_scored"
    by (simp_all add: ex_scored_facts(1))
  have ua: "\<exists>u. num_col ex_scored ''uplift'' = Some u \<and> length u = nrows ex_scored
        \<and> u ! 0 = Max (set (row_uplifts ex_scored [''A'', ''B''] 0))
        \<and> u ! 1 = Max (set (row_uplifts ex_scored [''A'', ''B''] 1))"
    using us(1,2) us(3) [rule_format, OF n(1)] us(3) [rule_format, OF n(2)]
    by (intro exI [of _ us] conjI)
  show ?thesis
    apply (insert run la ua)
    apply (intro conjI)
    apply assumption+
    done
qed






end
